theory Spec2Isabelle
  imports Complex_Main "HOL-Library.Char_ord" "HOL-Library.List_Lexorder" "HOL-Library.Multiset" "HOL-Library.Word"
begin

section \<open>JavaScript strings\<close>

text \<open>
  A JavaScript string is a sequence of UTF-16 code units. The model is \<^typ>\<open>string\<close>: the
  code units below 256 (ASCII and the Latin-1 supplement), one \<^typ>\<open>char\<close> per code unit,
  so that \<open>length\<close> is the source's \<open>.length\<close>. No character of that range changes
  length under \<open>toLowerCase\<close>: the letters \<open>A\<close> to \<open>Z\<close> and the accented capitals
  \<open>0xC0\<close> to \<open>0xDE\<close> (without the multiplication sign \<open>0xD7\<close>) move up by 32, every
  other code unit stays. The pipelines are modelled on such content. The classifier is
  modelled a second time on strings of all code units, in a section of its own, where
  \<open>toLowerCase\<close> and the regular expressions of the source part ways.
\<close>

definition casePairs :: "(char \<times> char) list" where
  "casePairs =
     [(CHR ''A'', CHR ''a''), (CHR ''B'', CHR ''b''), (CHR ''C'', CHR ''c''), (CHR ''D'', CHR ''d''),
      (CHR ''E'', CHR ''e''), (CHR ''F'', CHR ''f''), (CHR ''G'', CHR ''g''), (CHR ''H'', CHR ''h''),
      (CHR ''I'', CHR ''i''), (CHR ''J'', CHR ''j''), (CHR ''K'', CHR ''k''), (CHR ''L'', CHR ''l''),
      (CHR ''M'', CHR ''m''), (CHR ''N'', CHR ''n''), (CHR ''O'', CHR ''o''), (CHR ''P'', CHR ''p''),
      (CHR ''Q'', CHR ''q''), (CHR ''R'', CHR ''r''), (CHR ''S'', CHR ''s''), (CHR ''T'', CHR ''t''),
      (CHR ''U'', CHR ''u''), (CHR ''V'', CHR ''v''), (CHR ''W'', CHR ''w''), (CHR ''X'', CHR ''x''),
      (CHR ''Y'', CHR ''y''), (CHR ''Z'', CHR ''z''), (CHR 0xC0, CHR 0xE0), (CHR 0xC1, CHR 0xE1),
      (CHR 0xC2, CHR 0xE2), (CHR 0xC3, CHR 0xE3), (CHR 0xC4, CHR 0xE4), (CHR 0xC5, CHR 0xE5),
      (CHR 0xC6, CHR 0xE6), (CHR 0xC7, CHR 0xE7), (CHR 0xC8, CHR 0xE8), (CHR 0xC9, CHR 0xE9),
      (CHR 0xCA, CHR 0xEA), (CHR 0xCB, CHR 0xEB), (CHR 0xCC, CHR 0xEC), (CHR 0xCD, CHR 0xED),
      (CHR 0xCE, CHR 0xEE), (CHR 0xCF, CHR 0xEF), (CHR 0xD0, CHR 0xF0), (CHR 0xD1, CHR 0xF1),
      (CHR 0xD2, CHR 0xF2), (CHR 0xD3, CHR 0xF3), (CHR 0xD4, CHR 0xF4), (CHR 0xD5, CHR 0xF5),
      (CHR 0xD6, CHR 0xF6), (CHR 0xD8, CHR 0xF8), (CHR 0xD9, CHR 0xF9), (CHR 0xDA, CHR 0xFA),
      (CHR 0xDB, CHR 0xFB), (CHR 0xDC, CHR 0xFC), (CHR 0xDD, CHR 0xFD), (CHR 0xDE, CHR 0xFE)]"

definition isUpperChar :: "char \<Rightarrow> bool" where
  "isUpperChar c =
     ((CHR ''A'' \<le> c \<and> c \<le> CHR ''Z'')
      \<or> (CHR 0xC0 \<le> c \<and> c \<le> CHR 0xDE \<and> c \<noteq> CHR 0xD7))"

definition isLowerChar :: "char \<Rightarrow> bool" where
  "isLowerChar c =
     ((CHR ''a'' \<le> c \<and> c \<le> CHR ''z'')
      \<or> (CHR 0xE0 \<le> c \<and> c \<le> CHR 0xFE \<and> c \<noteq> CHR 0xF7))"

definition toLowerChar :: "char \<Rightarrow> char" where
  "toLowerChar c =
     (if isUpperChar c
      then (case map_of casePairs c of Some l \<Rightarrow> l | None \<Rightarrow> c)
      else c)"

definition toLowerCase :: "string \<Rightarrow> string" where
  "toLowerCase s = map toLowerChar s"

text \<open>
  The canonicalisation a regular expression with the \<open>i\<close> flag (and no \<open>u\<close> flag) applies
  to both the pattern character and the input character: the upper-case mapping, where it
  is a single code unit of the modelled range (so \<open>0xDF\<close>, \<open>0xB5\<close> and \<open>0xFF\<close> stay).
\<close>

definition canonicalize :: "char \<Rightarrow> char" where
  "canonicalize c =
     (if isLowerChar c
      then (case map_of (map prod.swap casePairs) c of Some u \<Rightarrow> u | None \<Rightarrow> c)
      else c)"

text \<open>White space as \<open>String.prototype.trim\<close> and the class \<open>\\s\<close> see it, in this range.\<close>

definition isWhiteSpace :: "char \<Rightarrow> bool" where
  "isWhiteSpace c =
     (c \<in> set [CHR 0x09, CHR 0x0A, CHR 0x0B, CHR 0x0C, CHR 0x0D, CHR 0x20, CHR 0xA0])"

definition trim :: "string \<Rightarrow> string" where
  "trim s = rev (dropWhile isWhiteSpace (rev (dropWhile isWhiteSpace s)))"

fun startsWith :: "'a list \<Rightarrow> 'a list \<Rightarrow> bool" where
  "startsWith s [] = True"
| "startsWith [] (p # ps) = False"
| "startsWith (c # cs) (p # ps) = (c = p \<and> startsWith cs ps)"

fun str_includes :: "'a list \<Rightarrow> 'a list \<Rightarrow> bool" where
  "str_includes [] p = (p = [])"
| "str_includes (c # cs) p = (startsWith (c # cs) p \<or> str_includes cs p)"

definition endsWith :: "string \<Rightarrow> string \<Rightarrow> bool" where
  "endsWith s p = startsWith (rev s) (rev p)"

text \<open>
  Every regular expression of the classifier is a literal with the \<open>i\<close> flag (its only
  metacharacters are escaped dots and slashes), so a pattern is represented by the text it
  matches, and \<open>pattern.test(s)\<close> looks for that text in \<open>s\<close> up to canonicalisation.
\<close>

definition regex_test_i :: "string \<Rightarrow> string \<Rightarrow> bool" where
  "regex_test_i pat s = str_includes (map canonicalize s) (map canonicalize pat)"

section \<open>The classifier (src/detect/isShopify.ts)\<close>

definition highConfidencePatterns :: "string list" where
  "highConfidencePatterns =
     [''cdn.shopify.com'', ''shopifycdn.com'', ''window.shopify'', ''shopify.theme'',
      ''shopify.settings'', ''shopify.analytics'', ''Shopify.checkout'']"

definition mediumConfidencePatterns :: "string list" where
  "mediumConfidencePatterns =
     [''.myshopify.com'', ''data-shopify'', ''shopify-section'', ''shopify-section-id'',
      ''shopify.js'', ''shopify.theme.js'', ''/collections/'', ''/products/'']"

definition lowConfidencePatterns :: "string list" where
  "lowConfidencePatterns = [''/cart'', ''/checkout'', ''shopify.com'']"

text \<open>The first loop: return true at the first high-confidence pattern that matches.\<close>

fun firstMatch :: "string list \<Rightarrow> string \<Rightarrow> bool" where
  "firstMatch [] s = False"
| "firstMatch (p # ps) s = (if regex_test_i p s then True else firstMatch ps s)"

text \<open>The counting loops: \<open>for (const pattern of ps) if (pattern.test(s)) count++\<close>.\<close>

fun countMatches :: "string list \<Rightarrow> string \<Rightarrow> nat \<Rightarrow> nat" where
  "countMatches [] s n = n"
| "countMatches (p # ps) s n = countMatches ps s (if regex_test_i p s then n + 1 else n)"

text \<open>The argument is \<open>None\<close> for \<open>null\<close> or \<open>undefined\<close>.\<close>

definition isShopifyHtml :: "string option \<Rightarrow> bool" where
  "isShopifyHtml html =
     (case html of
        None \<Rightarrow> False
      | Some h \<Rightarrow>
          if length h = 0 then False
          else
            let htmlLower = toLowerCase h in
            if firstMatch highConfidencePatterns htmlLower then True
            else
              let highCount = countMatches highConfidencePatterns htmlLower 0;
                  mediumCount = countMatches mediumConfidencePatterns htmlLower 0;
                  lowCount = countMatches lowConfidencePatterns htmlLower 0
              in if highCount \<ge> 1 then True
                 else if mediumCount \<ge> 2 then True
                 else if mediumCount \<ge> 1 \<and> lowCount \<ge> 2 then True
                 else
                   let hasMyshopify = regex_test_i ''.myshopify.com'' htmlLower
                   in if hasMyshopify \<and> mediumCount + lowCount \<ge> 3 then True
                      else False)"

definition isShopify :: "string option \<Rightarrow> bool" where
  "isShopify html = isShopifyHtml html"

text \<open>
  The weights are the decimal literals of the source as exact rationals; the source adds
  them in binary floating point, which agrees with the model wherever nothing is added.
\<close>

definition weightedPatterns :: "(string \<times> rat) list" where
  "weightedPatterns =
     [(''cdn.shopify.com'', 4 / 10), (''.myshopify.com'', 4 / 10),
      (''window.shopify'', 3 / 10), (''shopify.theme'', 3 / 10),
      (''shopifycdn.com'', 3 / 10), (''data-shopify'', 2 / 10),
      (''shopify-section'', 2 / 10), (''/collections/'', 1 / 10),
      (''/products/'', 1 / 10)]"

fun addWeights :: "(string \<times> rat) list \<Rightarrow> string \<Rightarrow> rat \<Rightarrow> rat" where
  "addWeights [] s score = score"
| "addWeights ((p, w) # ps) s score =
     addWeights ps s (if regex_test_i p s then score + w else score)"

definition getShopifyConfidence :: "string option \<Rightarrow> rat" where
  "getShopifyConfidence html =
     (case html of
        None \<Rightarrow> 0
      | Some h \<Rightarrow>
          if length h = 0 then 0
          else
            let htmlLower = toLowerCase h;
                score = addWeights weightedPatterns htmlLower 0
            in min score 1)"

text \<open>
  The tiered rule as the specification words it: patterns are evaluated
  case-insensitively against the full content; the content matches when some Tier-A
  pattern matches, or two Tier-B patterns, or one Tier-B and two Tier-C patterns, or the
  hosted-subdomain pattern together with three Tier-B and Tier-C matches in all.
\<close>

definition tierCount :: "string list \<Rightarrow> string \<Rightarrow> nat" where
  "tierCount ps content = length (filter (\<lambda>p. regex_test_i p content) ps)"

definition tieredRule :: "string \<Rightarrow> bool" where
  "tieredRule content =
     (tierCount highConfidencePatterns content \<ge> 1
      \<or> tierCount mediumConfidencePatterns content \<ge> 2
      \<or> (tierCount mediumConfidencePatterns content \<ge> 1
          \<and> tierCount lowConfidencePatterns content \<ge> 2)
      \<or> (regex_test_i ''.myshopify.com'' content
          \<and> tierCount mediumConfidencePatterns content
              + tierCount lowConfidencePatterns content \<ge> 3))"

section \<open>Errors, the environment and the network probes\<close>

text \<open>
  A thrown JavaScript error, by its \<open>name\<close> and its \<open>message\<close>. A function that can throw
  returns \<open>js_error + 'a\<close>, with \<open>Inl\<close> for the rejection.
\<close>

datatype js_error = JsError (name: string) (message: string)

datatype http_method = GET | HEAD

text \<open>
  What one call of the global \<open>fetch\<close> does: it rejects with an error (\<open>AbortError\<close> when
  the timer aborts it, a \<open>TypeError\<close> on a network failure or a malformed URL), or it
  resolves to a response with its \<open>ok\<close> flag and the outcome of reading the body as text.
\<close>

datatype fetch_outcome =
    FetchRejected js_error
  | FetchResponse (response_ok: bool) (response_text: "js_error + string")

text \<open>
  What the request to crt.sh does: \<open>fetch\<close> rejects, or it resolves to a response with
  its \<open>ok\<close> flag, its status line, and the outcome of \<open>response.json()\<close>: an error, or
  the array of certificates, each with its optional \<open>name_value\<close>.
\<close>

datatype ct_response =
    CtRejected js_error
  | CtResponse (ct_ok: bool) (ct_status: string) (ct_json: "js_error + string option list")

record SearchResult =
  title :: string
  url :: string

text \<open>
  The world outside the program. Every external call is a function of its arguments:
  the URL parser, the resolver of \<open>dns/promises\<close>, \<open>fetch\<close>, the search engines (modules
  that drive a browser) and the code-hosting search, the process environment, the clock,
  and the answer of crt.sh to the one request of \<open>getShopifyDomainsFromCT\<close>.
\<close>

record env =
  hostnameOf :: "string \<Rightarrow> string option"
  lookup :: "string \<Rightarrow> js_error + string"
  dnsResolveCname :: "string \<Rightarrow> (string \<times> js_error) + string list"
  fetch :: "string \<Rightarrow> nat \<Rightarrow> http_method \<Rightarrow> bool \<Rightarrow> fetch_outcome"
  searchGoogle :: "string \<Rightarrow> nat \<Rightarrow> js_error + SearchResult list"
  searchDuckDuckGo :: "string \<Rightarrow> nat \<Rightarrow> js_error + SearchResult list"
  searchBing :: "string \<Rightarrow> nat \<Rightarrow> js_error + SearchResult list"
  searchWithAPI :: "string \<Rightarrow> nat \<Rightarrow> js_error + SearchResult list"
  getShopifyUrlsFromGitHub :: "nat \<Rightarrow> js_error + SearchResult list"
  SERP_API_KEY :: "string option"
  nowISO :: string
  crtShopify :: ct_response

text \<open>\<open>a || b\<close> on an optional string: the empty string and \<open>undefined\<close> are falsy.\<close>

definition orElse :: "string option \<Rightarrow> string \<Rightarrow> string" where
  "orElse a b = (case a of None \<Rightarrow> b | Some s \<Rightarrow> if s = [] then b else s)"

subsection \<open>src/network/dnsCheck.ts\<close>

record DnsLookupResult =
  dns_ok :: bool
  dns_address :: "string option"
  dns_error :: "string option"

definition dnsLookup :: "env \<Rightarrow> string \<Rightarrow> DnsLookupResult" where
  "dnsLookup e domain =
     (case lookup e domain of
        Inr a \<Rightarrow> \<lparr>dns_ok = True, dns_address = Some a, dns_error = None\<rparr>
      | Inl err \<Rightarrow>
          \<lparr>dns_ok = False, dns_address = None,
           dns_error = Some (orElse (Some (message err)) ''DNS lookup failed'')\<rparr>)"

definition dnsCheck :: "env \<Rightarrow> string \<Rightarrow> DnsLookupResult" where
  "dnsCheck e domain =
     (let result = dnsLookup e domain
      in \<lparr>dns_ok = dns_ok result, dns_address = dns_address result,
          dns_error = dns_error result\<rparr>)"

record CnameResult =
  cname_ok :: bool
  cname_names :: "string list"
  cname_error :: "string option"

definition resolveCname :: "env \<Rightarrow> string \<Rightarrow> CnameResult" where
  "resolveCname e domain =
     (case dnsResolveCname e domain of
        Inr cs \<Rightarrow> \<lparr>cname_ok = True, cname_names = cs, cname_error = None\<rparr>
      | Inl (code, err) \<Rightarrow>
          if code = ''ENODATA'' \<or> code = ''ENOTFOUND''
          then \<lparr>cname_ok = False, cname_names = [], cname_error = None\<rparr>
          else \<lparr>cname_ok = False, cname_names = [],
                cname_error = Some (orElse (Some (message err)) ''CNAME resolution failed'')\<rparr>)"

subsection \<open>fetchHtml\<close>

record FetchHtmlOptions =
  timeoutMs :: "nat option"
  httpMethod :: "http_method option"
  followRedirects :: "bool option"

text \<open>The second parameter: left out, a number (the old signature) or an options object.\<close>

datatype timeout_or_options = NoArg | TimeoutArg nat | OptionsArg FetchHtmlOptions

definition emptyOptions :: FetchHtmlOptions where
  "emptyOptions = \<lparr>timeoutMs = None, httpMethod = None, followRedirects = None\<rparr>"

text \<open>\<open>{ timeoutMs: t, ...options }\<close>: a key of \<open>options\<close> overrides the number.\<close>

definition spreadOptions :: "nat \<Rightarrow> FetchHtmlOptions option \<Rightarrow> FetchHtmlOptions" where
  "spreadOptions t options =
     (case options of
        None \<Rightarrow> emptyOptions\<lparr>timeoutMs := Some t\<rparr>
      | Some opt \<Rightarrow>
          opt\<lparr>timeoutMs := (case timeoutMs opt of None \<Rightarrow> Some t | Some t' \<Rightarrow> Some t')\<rparr>)"

text \<open>The body of the \<open>try\<close> block: what it returns, or the error it throws.\<close>

definition fetchHtml_try ::
  "env \<Rightarrow> string \<Rightarrow> nat \<Rightarrow> http_method \<Rightarrow> bool \<Rightarrow> js_error + string option" where
  "fetchHtml_try e u tmo m follow =
     (case fetch e u tmo m follow of
        FetchRejected err \<Rightarrow> Inl err
      | FetchResponse ok body \<Rightarrow>
          if \<not> ok then Inr None
          else if m = HEAD then Inr (Some [])
          else (case body of Inl err \<Rightarrow> Inl err | Inr html \<Rightarrow> Inr (Some html)))"

text \<open>
  The options object the function works with, and the three values it reads from it:
  \<open>opts.timeoutMs || 10000\<close>, \<open>opts.method || 'GET'\<close> (the field \<open>method\<close> is \<open>httpMethod\<close> here), \<open>opts.followRedirects !== false\<close>.
\<close>

definition resolveOptions :: "timeout_or_options \<Rightarrow> FetchHtmlOptions option \<Rightarrow> FetchHtmlOptions"
  where
  "resolveOptions timeoutOrOptions options =
     (case timeoutOrOptions of
        TimeoutArg t \<Rightarrow> spreadOptions t options
      | OptionsArg opt \<Rightarrow> opt
      | NoArg \<Rightarrow> emptyOptions)"

definition timeoutOf :: "FetchHtmlOptions \<Rightarrow> nat" where
  "timeoutOf opts = (case timeoutMs opts of None \<Rightarrow> 10000 | Some t \<Rightarrow> if t = 0 then 10000 else t)"

definition methodOf :: "FetchHtmlOptions \<Rightarrow> http_method" where
  "methodOf opts = (case httpMethod opts of None \<Rightarrow> GET | Some m \<Rightarrow> m)"

definition followOf :: "FetchHtmlOptions \<Rightarrow> bool" where
  "followOf opts = (followRedirects opts \<noteq> Some False)"

text \<open>The call of \<open>fetch\<close> that \<open>fetchHtml\<close> makes for its arguments.\<close>

definition fetchOutcome ::
  "env \<Rightarrow> string \<Rightarrow> timeout_or_options \<Rightarrow> FetchHtmlOptions option \<Rightarrow> fetch_outcome" where
  "fetchOutcome e u timeoutOrOptions options =
     (let opts = resolveOptions timeoutOrOptions options
      in fetch e u (timeoutOf opts) (methodOf opts) (followOf opts))"

text \<open>The \<open>catch\<close> returns \<open>null\<close> for an \<open>AbortError\<close> and for every other error.\<close>

definition fetchHtml ::
  "env \<Rightarrow> string \<Rightarrow> timeout_or_options \<Rightarrow> FetchHtmlOptions option
     \<Rightarrow> js_error + string option" where
  "fetchHtml e u timeoutOrOptions options =
     (let opts = resolveOptions timeoutOrOptions options
      in case fetchHtml_try e u (timeoutOf opts) (methodOf opts) (followOf opts) of
           Inl err \<Rightarrow> (if name err = ''AbortError'' then Inr None else Inr None)
         | Inr r \<Rightarrow> Inr r)"

section \<open>The scan pipelines\<close>

text \<open>
  The per-item result types. \<open>ScanResult\<close> (scanNiche, scanMassive),
  \<open>NicheScanResultItem\<close> (scanNicheWithBing) and \<open>BingBulkScanResultItem\<close> (scanBingBulk)
  share the fields of \<open>ScanItem\<close>; the field \<open>isShopify\<close> is \<open>isShopifyFlag\<close> here, the
  name being taken by the function. The optional \<open>confidence\<close> of a
  \<open>BingBulkScanResultItem\<close> is never assigned by scanBingBulk and is left out.
\<close>

record ScanItem = SearchResult +
  dnsOk :: bool
  htmlFetched :: bool
  isShopifyFlag :: bool
  error :: "string option"

record ScanResult = ScanItem +
  confidence :: "rat option"

record NicheScanResultItem = ScanItem +
  cnames :: "string list"


text \<open>
  The calls a pipeline makes to the network probes, in order: the trace is not part of
  any report; it records which probe ran for which item.
\<close>

datatype call = DnsCall string | CnameCall string | FetchCall string

record 'a scan_state =
  st_results :: "'a list"
  st_shopifyUrls :: "string list"
  st_trace :: "call list"

definition initState :: "'a scan_state" where
  "initState = \<lparr>st_results = [], st_shopifyUrls = [], st_trace = []\<rparr>"

definition pushResult :: "'a \<Rightarrow> 'a scan_state \<Rightarrow> 'a scan_state" where
  "pushResult r st = st\<lparr>st_results := st_results st @ [r]\<rparr>"

definition pushShopifyUrl :: "string \<Rightarrow> 'a scan_state \<Rightarrow> 'a scan_state" where
  "pushShopifyUrl u st = st\<lparr>st_shopifyUrls := st_shopifyUrls st @ [u]\<rparr>"

definition logCall :: "call \<Rightarrow> 'a scan_state \<Rightarrow> 'a scan_state" where
  "logCall c st = st\<lparr>st_trace := st_trace st @ [c]\<rparr>"




text \<open>The messages with an accented letter, code unit by code unit.\<close>

definition msgEchec :: string where
  "msgEchec = CHR 0xC9 # ''chec''"

definition msgImpossible :: string where
  "msgImpossible = ''Impossible de r'' @ [CHR 0xE9] @ ''cup'' @ [CHR 0xE9] @ ''rer le HTML''"

definition msgNonRecupere :: string where
  "msgNonRecupere = ''HTML non r'' @ [CHR 0xE9] @ ''cup'' @ [CHR 0xE9] @ ''r'' @ [CHR 0xE9]"

text \<open>\<open>!html\<close> on the result of fetchHtml: \<open>null\<close> and the empty string are falsy.\<close>

definition falsyHtml :: "string option \<Rightarrow> bool" where
  "falsyHtml html = (case html of None \<Rightarrow> True | Some h \<Rightarrow> h = [])"


subsection \<open>scanNiche (pipeline/scan.ts)\<close>

text \<open>
  One iteration of the analysis loop of scanNiche; scanMassive runs the same body. Every
  \<open>results.push(result); continue\<close> and the push at the end of the body is a
  \<open>pushResult\<close>; the \<open>catch\<close> of the outer \<open>try\<close> is the \<open>Inl\<close> branch.
\<close>

definition scanNiche_item ::
  "env \<Rightarrow> nat \<Rightarrow> SearchResult \<Rightarrow> ScanResult scan_state \<Rightarrow> ScanResult scan_state" where
  "scanNiche_item e tmo sr st =
     (let result = \<lparr>title = title sr, url = url sr, dnsOk = False, htmlFetched = False,
                    isShopifyFlag = False, error = None, confidence = None\<rparr>
      in case hostnameOf e (url sr) of
           None \<Rightarrow> pushResult (result\<lparr>error := Some ''URL invalide''\<rparr>) st
         | Some domain \<Rightarrow>
             let dnsResult = dnsCheck e domain;
                 st1 = logCall (DnsCall domain) st;
                 result1 = result\<lparr>dnsOk := dns_ok dnsResult\<rparr>
             in if \<not> dns_ok dnsResult
                then pushResult
                       (result1\<lparr>error := Some (''DNS: '' @ orElse (dns_error dnsResult) msgEchec)\<rparr>)
                       st1
                else
                  let st2 = logCall (FetchCall (url sr)) st1
                  in case fetchHtml e (url sr) (TimeoutArg tmo) None of
                       Inl err \<Rightarrow>
                         pushResult
                           (result1\<lparr>error := Some (orElse (Some (message err)) ''Erreur inconnue'')\<rparr>)
                           st2
                     | Inr html \<Rightarrow>
                         let result2 = result1\<lparr>htmlFetched := (html \<noteq> None)\<rparr>
                         in if falsyHtml html
                            then pushResult (result2\<lparr>error := Some msgImpossible\<rparr>) st2
                            else
                              let result3 = result2\<lparr>isShopifyFlag := isShopify html,
                                                    confidence := Some (getShopifyConfidence html)\<rparr>;
                                  st3 = (if isShopifyFlag result3
                                         then pushShopifyUrl (url sr) st2 else st2)
                              in pushResult result3 st3)"

fun scanNiche_loop ::
  "env \<Rightarrow> nat \<Rightarrow> SearchResult list \<Rightarrow> ScanResult scan_state \<Rightarrow> ScanResult scan_state" where
  "scanNiche_loop e tmo [] st = st"
| "scanNiche_loop e tmo (sr # srs) st = scanNiche_loop e tmo srs (scanNiche_item e tmo sr st)"


record ScanNicheOptions =
  opt_maxResults :: "nat option"
  opt_timeout :: "nat option"

text \<open>\<open>n || d\<close> on an optional number: zero and \<open>undefined\<close> are falsy.\<close>

definition numOr :: "nat option \<Rightarrow> nat \<Rightarrow> nat" where
  "numOr a d = (case a of None \<Rightarrow> d | Some n \<Rightarrow> if n = 0 then d else n)"

definition truthyStr :: "string option \<Rightarrow> bool" where
  "truthyStr a = (case a of None \<Rightarrow> False | Some s \<Rightarrow> s \<noteq> [])"


definition scanNiche_maxResults :: "ScanNicheOptions option \<Rightarrow> nat" where
  "scanNiche_maxResults options =
     numOr (case options of None \<Rightarrow> None | Some opt \<Rightarrow> opt_maxResults opt) 20"

definition scanNiche_timeout :: "ScanNicheOptions option \<Rightarrow> nat" where
  "scanNiche_timeout options =
     numOr (case options of None \<Rightarrow> None | Some opt \<Rightarrow> opt_timeout opt) 10000"



subsection \<open>scanBingBulk (pipeline/scanBingBulk.ts)\<close>

text \<open>
  The options that reach the result. The pause between queries and \<open>reuseBrowser\<close> change
  no value of the report and are left out.
\<close>

record BingBulkScanOptions =
  bulk_queries :: "string list"
  bulk_maxResultsPerQuery :: "nat option"
  bulk_timeout :: "nat option"

text \<open>
  The deduplication state: the \<open>Set\<close> in insertion order, and the two \<open>Map\<close>s.
\<close>

record url_titles =
  allUrls :: "string list"
  urlToTitle :: "string \<rightharpoonup> string"

record collected = url_titles +
  urlToQuery :: "string \<rightharpoonup> string"

definition noUrls :: collected where
  "noUrls = \<lparr>allUrls = [], urlToTitle = Map.empty, urlToQuery = Map.empty\<rparr>"

fun addSearchResults :: "string \<Rightarrow> SearchResult list \<Rightarrow> collected \<Rightarrow> collected" where
  "addSearchResults q [] c = c"
| "addSearchResults q (r # rs) c =
     addSearchResults q rs
       (if url r \<notin> set (allUrls c)
        then c\<lparr>allUrls := allUrls c @ [url r],
               urlToTitle := (urlToTitle c)(url r \<mapsto> title r),
               urlToQuery := (urlToQuery c)(url r \<mapsto> q)\<rparr>
        else c)"

text \<open>The loop over the queries; a query whose search throws is skipped.\<close>

fun collectQueries :: "env \<Rightarrow> nat \<Rightarrow> string list \<Rightarrow> collected \<Rightarrow> collected" where
  "collectQueries e maxR [] c = c"
| "collectQueries e maxR (q # qs) c =
     collectQueries e maxR qs
       (case searchBing e q maxR of
          Inl err \<Rightarrow> c
        | Inr searchResults \<Rightarrow> addSearchResults q searchResults c)"




text \<open>A destructuring default applies to \<open>undefined\<close> only: zero stays zero.\<close>

definition scanBingBulk_maxResults :: "BingBulkScanOptions \<Rightarrow> nat" where
  "scanBingBulk_maxResults options =
     (case bulk_maxResultsPerQuery options of None \<Rightarrow> 50 | Some n \<Rightarrow> n)"

definition scanBingBulk_collect :: "env \<Rightarrow> BingBulkScanOptions \<Rightarrow> collected" where
  "scanBingBulk_collect e options =
     collectQueries e (scanBingBulk_maxResults options) (bulk_queries options) noUrls"

definition scanBingBulk_timeout :: "BingBulkScanOptions \<Rightarrow> nat" where
  "scanBingBulk_timeout options = (case bulk_timeout options of None \<Rightarrow> 15000 | Some n \<Rightarrow> n)"



subsection \<open>scanNicheWithBing (src/pipeline/scanNicheWithBing.ts)\<close>

text \<open>
  \<open>processUrl\<close>, the pipeline of one item. The pool starts it once for every search
  result; what it pushes depends on the item and the environment only.
\<close>

definition processUrl ::
  "env \<Rightarrow> SearchResult \<Rightarrow> NicheScanResultItem scan_state \<Rightarrow> NicheScanResultItem scan_state"
  where
  "processUrl e sr st =
     (let item = \<lparr>title = title sr, url = url sr, dnsOk = False, htmlFetched = False,
                  isShopifyFlag = False, error = None, cnames = []\<rparr>
      in case hostnameOf e (url sr) of
           None \<Rightarrow> pushResult (item\<lparr>error := Some ''URL invalide''\<rparr>) st
         | Some domain \<Rightarrow>
             let dnsResult = dnsLookup e domain;
                 st1 = logCall (DnsCall domain) st;
                 item1 = item\<lparr>dnsOk := dns_ok dnsResult\<rparr>
             in if \<not> dns_ok dnsResult
                then pushResult
                       (item1\<lparr>error := Some (''DNS: '' @ orElse (dns_error dnsResult) msgEchec)\<rparr>)
                       st1
                else
                  let cnameResult = resolveCname e domain;
                      st2 = logCall (CnameCall domain) st1;
                      item2 = item1\<lparr>cnames := cname_names cnameResult\<rparr>;
                      st3 = logCall (FetchCall (url sr)) st2
                  in case fetchHtml e (url sr)
                            (OptionsArg (emptyOptions\<lparr>timeoutMs := Some 10000\<rparr>)) None of
                       Inl err \<Rightarrow>
                         pushResult
                           (item2\<lparr>error := Some (orElse (Some (message err)) ''Erreur inconnue'')\<rparr>)
                           st3
                     | Inr html \<Rightarrow>
                         let item3 = item2\<lparr>htmlFetched := (html \<noteq> None)\<rparr>
                         in if falsyHtml html
                            then pushResult (item3\<lparr>error := Some msgNonRecupere\<rparr>) st3
                            else
                              let item4 = item3\<lparr>isShopifyFlag := isShopifyHtml html\<rparr>;
                                  st4 = (if isShopifyFlag item4
                                         then pushShopifyUrl (url sr) st3 else st3)
                              in pushResult item4 st4)"

text \<open>
  The schedule in which every item completes before the next one starts (what the pool
  does with \<open>concurrency = 1\<close>); with more workers the pushes of different items
  interleave, and the report lists the same items in completion order.
\<close>

fun processAll ::
  "env \<Rightarrow> SearchResult list \<Rightarrow> NicheScanResultItem scan_state
     \<Rightarrow> NicheScanResultItem scan_state" where
  "processAll e [] st = st"
| "processAll e (sr # srs) st = processAll e srs (processUrl e sr st)"

definition scanNicheWithBing_run ::
  "env \<Rightarrow> string \<Rightarrow> nat option \<Rightarrow> NicheScanResultItem scan_state" where
  "scanNicheWithBing_run e q maxResults =
     (case searchBing e q (case maxResults of None \<Rightarrow> 50 | Some n \<Rightarrow> n) of
        Inl err \<Rightarrow> initState
      | Inr searchResults \<Rightarrow>
          if length searchResults = 0 then initState
          else processAll e searchResults initState)"


section \<open>The certificate-log adapters\<close>

text \<open>\<open>s.split(sep)\<close> for a one-character separator.\<close>

fun split_on :: "char \<Rightarrow> string \<Rightarrow> string list" where
  "split_on sep [] = [[]]"
| "split_on sep (c # cs) =
     (if c = sep then [] # split_on sep cs
      else (case split_on sep cs of
              [] \<Rightarrow> [[c]]
            | part # parts \<Rightarrow> (c # part) # parts))"

text \<open>\<open>s.replace(pat, rep)\<close> for a string pattern: the first occurrence only.\<close>

fun replaceFirst :: "string \<Rightarrow> string \<Rightarrow> string \<Rightarrow> string" where
  "replaceFirst pat rep [] = (if pat = [] then rep else [])"
| "replaceFirst pat rep (c # cs) =
     (if startsWith (c # cs) pat then rep @ drop (length pat) (c # cs)
      else c # replaceFirst pat rep cs)"

text \<open>\<open>set.add(x)\<close> on a \<open>Set\<close> kept in insertion order.\<close>

definition setAdd :: "string \<Rightarrow> string list \<Rightarrow> string list" where
  "setAdd x xs = (if x \<in> set xs then xs else xs @ [x])"

definition newline :: char where
  "newline = CHR 0x0A"

subsection \<open>getShopifyDomainsFromCT (src/sources/certificateTransparency.ts)\<close>

definition invalidStoreNames :: "string list" where
  "invalidStoreNames =
     [''www'', ''admin'', ''cdn'', ''login'', ''api'', ''app'', ''mail'', ''ftp'', ''test'']"

text \<open>The body of the inner loop, for one line of a \<open>name_value\<close>.\<close>

definition addShopifyDomain :: "string list \<Rightarrow> string \<Rightarrow> string list" where
  "addShopifyDomain domains domainLine =
     (let domain = toLowerCase (trim domainLine)
      in if endsWith domain ''.myshopify.com''
         then
           let cleanDomain = trim (replaceFirst ''www.'' [] (replaceFirst ''*.'' [] domain))
           in if cleanDomain \<noteq> [] \<and> cleanDomain \<noteq> ''myshopify.com''
                 \<and> \<not> startsWith cleanDomain ''.''
              then
                let parts = split_on CHR ''.'' cleanDomain
                in (case parts of
                      storeName # _ \<Rightarrow>
                        if length parts \<ge> 2 \<and> storeName \<noteq> [] \<and> length storeName > 0
                        then (if storeName \<notin> set invalidStoreNames
                              then setAdd cleanDomain domains else domains)
                        else domains
                    | [] \<Rightarrow> domains)
              else domains
         else domains)"

text \<open>
  The loop over the certificates: it stops when \<open>processed\<close> has reached \<open>maxResults\<close>; a
  certificate without a \<open>name_value\<close> is skipped and not counted.
\<close>

fun shopifyDomainsLoop ::
  "nat \<Rightarrow> string option list \<Rightarrow> nat \<Rightarrow> string list \<Rightarrow> string list" where
  "shopifyDomainsLoop maxResults [] processed domains = domains"
| "shopifyDomainsLoop maxResults (cert # certs) processed domains =
     (if processed \<ge> maxResults then domains
      else
        let nameValue = orElse cert []
        in if nameValue = [] then shopifyDomainsLoop maxResults certs processed domains
           else shopifyDomainsLoop maxResults certs (processed + 1)
                  (foldl addShopifyDomain domains (split_on newline nameValue)))"

definition httpError :: "string \<Rightarrow> js_error" where
  "httpError status = JsError ''Error'' (''HTTP '' @ status)"

text \<open>The parameter is \<open>None\<close> when the caller leaves it out (the default is 10000).\<close>

definition getShopifyDomainsFromCT ::
  "ct_response \<Rightarrow> nat option \<Rightarrow> js_error + SearchResult list" where
  "getShopifyDomainsFromCT response maxResultsArg =
     (let maxResults = (case maxResultsArg of None \<Rightarrow> 10000 | Some n \<Rightarrow> n)
      in case response of
           CtRejected err \<Rightarrow> Inl err
         | CtResponse ok status json \<Rightarrow>
             if \<not> ok then Inl (httpError status)
             else (case json of
                     Inl err \<Rightarrow> Inl err
                   | Inr data \<Rightarrow>
                       Inr (map (\<lambda>domain. \<lparr>title = domain, url = ''https://'' @ domain\<rparr>)
                              (shopifyDomainsLoop maxResults data 0 []))))"

subsection \<open>fetchDomainsFromCT (src/ct/ctScanner.ts) and its two copies in massCtScanner.ts\<close>

record CtScannerOptions =
  ct_limit :: "nat option"
  ct_timeout :: "nat option"

text \<open>
  The cleaning of one line, the same text in \<open>fetchDomainsFromCT\<close>,
  \<open>fetchDomainsFromCTWithDate\<close> and \<open>fetchDomainsFromCTWithEndpoint\<close>.
\<close>

definition addCleanDomain :: "string list \<Rightarrow> string \<Rightarrow> string list" where
  "addCleanDomain domains domainLine =
     (let domain0 = toLowerCase (trim domainLine);
          domain1 = filter (\<lambda>c. \<not> isWhiteSpace c) domain0;
          domain2 = (if startsWith domain1 ''*.'' then drop 2 domain1 else domain1);
          domain = (if startsWith domain2 ''www.'' then drop 4 domain2 else domain2)
      in if domain \<noteq> [] \<and> length domain > 0 \<and> \<not> startsWith domain ''.''
            \<and> str_includes domain ''.'' \<and> \<not> str_includes domain '' ''
            \<and> \<not> str_includes domain [newline] \<and> \<not> str_includes domain [CHR 0x0D]
         then setAdd domain domains else domains)"

text \<open>\<open>limit && domains.size >= limit\<close>: a limit of zero or \<open>undefined\<close> never holds.\<close>

definition limitReached :: "nat option \<Rightarrow> nat \<Rightarrow> bool" where
  "limitReached limit n = (case limit of None \<Rightarrow> False | Some l \<Rightarrow> l \<noteq> 0 \<and> n \<ge> l)"

fun cleanDomainsLoop :: "nat option \<Rightarrow> string option list \<Rightarrow> string list \<Rightarrow> string list" where
  "cleanDomainsLoop limit [] domains = domains"
| "cleanDomainsLoop limit (cert # certs) domains =
     (if limitReached limit (length domains) then domains
      else
        let nameValue = orElse cert []
        in if nameValue = [] then cleanDomainsLoop limit certs domains
           else cleanDomainsLoop limit certs
                  (foldl addCleanDomain domains (split_on newline nameValue)))"

text \<open>\<open>Array.from(domains)\<close>, cut to \<open>limit\<close> when it is longer.\<close>

definition applyLimit :: "nat option \<Rightarrow> string list \<Rightarrow> string list" where
  "applyLimit limit resultArray =
     (case limit of
        None \<Rightarrow> resultArray
      | Some l \<Rightarrow> if l \<noteq> 0 \<and> length resultArray > l then take l resultArray
                  else resultArray)"

definition optLimit :: "CtScannerOptions option \<Rightarrow> nat option" where
  "optLimit options = (case options of None \<Rightarrow> None | Some opt \<Rightarrow> ct_limit opt)"

text \<open>
  The \<open>try\<close> block of \<open>fetchDomainsFromCT\<close>. Whatever throws in it (the rejected fetch,
  the error for a status that is not ok, the JSON that does not parse) throws before the
  first domain is added.
\<close>

definition fetchDomainsFromCT_try ::
  "ct_response \<Rightarrow> CtScannerOptions option \<Rightarrow> js_error + string list" where
  "fetchDomainsFromCT_try response options =
     (case response of
        CtRejected err \<Rightarrow> Inl err
      | CtResponse ok status json \<Rightarrow>
          if \<not> ok then Inl (httpError status)
          else (case json of
                  Inl err \<Rightarrow> Inl err
                | Inr data \<Rightarrow>
                    Inr (applyLimit (optLimit options)
                           (cleanDomainsLoop (optLimit options) data []))))"

text \<open>
  The \<open>catch\<close> returns \<open>Array.from(domains)\<close>, the set being still empty; the function
  itself never rejects.
\<close>

definition fetchDomainsFromCT ::
  "ct_response \<Rightarrow> CtScannerOptions option \<Rightarrow> js_error + string list" where
  "fetchDomainsFromCT response options =
     (case fetchDomainsFromCT_try response options of
        Inl err \<Rightarrow> Inr []
      | Inr resultArray \<Rightarrow> Inr resultArray)"

text \<open>
  The two copies differ from \<open>fetchDomainsFromCT\<close> in the URL they request and in
  returning the empty array for a status that is not ok; the \<open>catch\<close> returns the empty
  array.
\<close>

definition fetchDomainsFromCTWithDate_try ::
  "ct_response \<Rightarrow> CtScannerOptions option \<Rightarrow> js_error + string list" where
  "fetchDomainsFromCTWithDate_try response options =
     (case response of
        CtRejected err \<Rightarrow> Inl err
      | CtResponse ok status json \<Rightarrow>
          if \<not> ok then Inr []
          else (case json of
                  Inl err \<Rightarrow> Inl err
                | Inr data \<Rightarrow>
                    Inr (applyLimit (optLimit options)
                           (cleanDomainsLoop (optLimit options) data []))))"

definition fetchDomainsFromCTWithDate ::
  "ct_response \<Rightarrow> CtScannerOptions option \<Rightarrow> js_error + string list" where
  "fetchDomainsFromCTWithDate response options =
     (case fetchDomainsFromCTWithDate_try response options of
        Inl err \<Rightarrow> Inr []
      | Inr resultArray \<Rightarrow> Inr resultArray)"

definition fetchDomainsFromCTWithEndpoint ::
  "ct_response \<Rightarrow> CtScannerOptions option \<Rightarrow> js_error + string list" where
  "fetchDomainsFromCTWithEndpoint response options =
     (case fetchDomainsFromCTWithDate_try response options of
        Inl err \<Rightarrow> Inr []
      | Inr resultArray \<Rightarrow> Inr resultArray)"

text \<open>\<open>fetchDomainsFromCTSilent\<close>: the same call with the console silenced.\<close>

definition fetchDomainsFromCTSilent ::
  "ct_response \<Rightarrow> CtScannerOptions option \<Rightarrow> js_error + string list" where
  "fetchDomainsFromCTSilent response options = fetchDomainsFromCT response options"

subsection \<open>massFetchDomainsFromCT (ct/massCtScanner.ts)\<close>

record MassCtOptions =
  limitPerPattern :: "nat option"
  maxTotalDomains :: "nat option"
  sleepMsBetweenRequests :: "nat option"
  mass_timeout :: "nat option"
  stopAfterConsecutiveErrors :: "nat option"
  useDateRanges :: "bool option"
  useDifferentEndpoints :: "bool option"
  daysBack :: "nat option"

datatype endpoint = Q | Identity

record CtQuery =
  q_pattern :: string
  q_startDate :: "string option"
  q_endDate :: "string option"
  q_endpoint :: "endpoint option"
  q_description :: string

text \<open>
  What the mass scan reads from outside: the clock, as the pair of \<open>YYYYMMDD\<close> strings
  (start, end) of the month range \<open>i\<close> months back, and crt.sh, as the answer to the one
  request made for the query with a given \<open>queryIndex\<close>.
\<close>

record ct_env =
  monthRange :: "nat \<Rightarrow> string \<times> string"
  crtsh :: "nat \<Rightarrow> ct_response"

definition generateDateRangeQueries :: "ct_env \<Rightarrow> nat \<Rightarrow> CtQuery list" where
  "generateDateRangeQueries ce days =
     (let pat = ''%.myshopify.com'';
          monthsBack = (days + 29) div 30
      in \<lparr>q_pattern = pat, q_startDate = None, q_endDate = None, q_endpoint = None,
          q_description = []\<rparr>
         # map (\<lambda>i. \<lparr>q_pattern = pat, q_startDate = Some (fst (monthRange ce i)),
                       q_endDate = Some (snd (monthRange ce i)), q_endpoint = None,
                       q_description = []\<rparr>)
             [0..<monthsBack])"

definition generateEndpointQueries :: "CtQuery list" where
  "generateEndpointQueries =
     (let pat = ''%.myshopify.com''
      in [\<lparr>q_pattern = pat, q_startDate = None, q_endDate = None, q_endpoint = Some Q,
           q_description = []\<rparr>,
          \<lparr>q_pattern = pat, q_startDate = None, q_endDate = None, q_endpoint = Some Identity,
           q_description = []\<rparr>])"

definition showDate :: "string option \<Rightarrow> string" where
  "showDate d = (case d of None \<Rightarrow> ''undefined'' | Some s \<Rightarrow> s)"

definition massQueries :: "ct_env \<Rightarrow> MassCtOptions \<Rightarrow> CtQuery list" where
  "massQueries ce opts =
     [\<lparr>q_pattern = ''%.myshopify.com'', q_startDate = None, q_endDate = None,
       q_endpoint = None, q_description = ''Requ'' @ [CHR 0xEA] @ ''te principale''\<rparr>]
     @ (if useDateRanges opts \<noteq> Some False
        then map (\<lambda>q. q\<lparr>q_description :=
                          ''Date: '' @ showDate (q_startDate q) @ '' - '' @ showDate (q_endDate q)\<rparr>)
               (tl (generateDateRangeQueries ce
                      (case daysBack opts of None \<Rightarrow> 365 | Some d \<Rightarrow> d)))
        else [])
     @ (if useDifferentEndpoints opts \<noteq> Some False
        then map (\<lambda>q. q\<lparr>q_description := ''Endpoint: Identity''\<rparr>)
               (filter (\<lambda>q. q_endpoint q = Some Identity) generateEndpointQueries)
        else [])"

record mass_state =
  allDomains :: "string list"
  patternsUsed :: "string list"
  queryIndex :: nat
  consecutiveErrors :: nat
  attempted :: "nat list"

text \<open>The harvest of one query: which of the three functions is called, on which answer.\<close>

definition harvest :: "ct_env \<Rightarrow> MassCtOptions \<Rightarrow> CtQuery \<Rightarrow> nat \<Rightarrow> js_error + string list" where
  "harvest ce opts q k =
     (let ctOptions = \<lparr>ct_limit = (if numOr (limitPerPattern opts) 0 \<noteq> 0
                                    then limitPerPattern opts else None),
                       ct_timeout = Some (case mass_timeout opts of None \<Rightarrow> 60000 | Some t \<Rightarrow> t)\<rparr>
      in if q_endpoint q = Some Identity
         then fetchDomainsFromCTWithEndpoint (crtsh ce k) (Some ctOptions)
         else if truthyStr (q_startDate q) \<or> truthyStr (q_endDate q)
         then fetchDomainsFromCTWithDate (crtsh ce k) (Some ctOptions)
         else fetchDomainsFromCTSilent (crtsh ce k) (Some ctOptions))"

text \<open>
  The loop over the queries. \<open>attempted\<close> lists the indices of the queries for which a
  harvest was called. A \<open>break\<close> returns the state; \<open>continue\<close> goes on with the rest.
\<close>

fun massLoop :: "ct_env \<Rightarrow> MassCtOptions \<Rightarrow> CtQuery list \<Rightarrow> mass_state \<Rightarrow> mass_state" where
  "massLoop ce opts [] st = st"
| "massLoop ce opts (q # qs) st =
     (let st1 = st\<lparr>queryIndex := queryIndex st + 1\<rparr>
      in if limitReached (maxTotalDomains opts) (length (allDomains st1)) then st1
         else
           let st2 = st1\<lparr>attempted := attempted st1 @ [queryIndex st1]\<rparr>
           in case harvest ce opts q (queryIndex st1) of
                Inr domains \<Rightarrow>
                  let st3 = (if length domains > 0 then st2\<lparr>consecutiveErrors := 0\<rparr> else st2);
                      st4 = st3\<lparr>allDomains := foldl (\<lambda>ds d. setAdd d ds) (allDomains st3) domains,
                                patternsUsed := patternsUsed st3
                                   @ [if q_description q \<noteq> [] then q_description q else q_pattern q]\<rparr>
                  in if limitReached (maxTotalDomains opts) (length (allDomains st4)) then st4
                     else massLoop ce opts qs st4
              | Inl err \<Rightarrow>
                  let st3 = st2\<lparr>consecutiveErrors := consecutiveErrors st2 + 1\<rparr>
                  in if limitReached (stopAfterConsecutiveErrors opts) (consecutiveErrors st3)
                     then st3
                     else if consecutiveErrors st3 \<ge> 5
                     then massLoop ce opts qs (st3\<lparr>consecutiveErrors := 0\<rparr>)
                     else massLoop ce opts qs st3)"

definition noOptions :: MassCtOptions where
  "noOptions = \<lparr>limitPerPattern = None, maxTotalDomains = None, sleepMsBetweenRequests = None,
                mass_timeout = None, stopAfterConsecutiveErrors = None, useDateRanges = None,
                useDifferentEndpoints = None, daysBack = None\<rparr>"

definition massFetch_run :: "ct_env \<Rightarrow> MassCtOptions option \<Rightarrow> mass_state" where
  "massFetch_run ce options =
     (let opts = (case options of None \<Rightarrow> noOptions | Some opt \<Rightarrow> opt)
      in massLoop ce opts (massQueries ce opts)
           \<lparr>allDomains = [], patternsUsed = [], queryIndex = 0, consecutiveErrors = 0,
            attempted = []\<rparr>)"

record MassCtResult =
  res_patternsUsed :: "string list"
  totalDomains :: nat
  domains :: "string list"

text \<open>\<open>Array.from(allDomains).sort()\<close>: the order of the code units, the order of \<^typ>\<open>string\<close>.\<close>

definition massFetchDomainsFromCT :: "ct_env \<Rightarrow> MassCtOptions option \<Rightarrow> MassCtResult" where
  "massFetchDomainsFromCT ce options =
     (let st = massFetch_run ce options;
          domainsArray = sort (allDomains st)
      in \<lparr>res_patternsUsed = patternsUsed st, totalDomains = length domainsArray,
          domains = domainsArray\<rparr>)"

subsection \<open>scanMassive (pipeline/scanMassive.ts)\<close>

record ScanMassiveOptions =
  sm_maxResultsPerQuery :: "nat option"
  sm_timeout :: "nat option"
  sm_useGenericQueries :: "bool option"

text \<open>The first source sets the title of every result; the second one only a missing title.\<close>

definition addCtResult :: "url_titles \<Rightarrow> SearchResult \<Rightarrow> url_titles" where
  "addCtResult c r =
     c\<lparr>allUrls := setAdd (url r) (allUrls c), urlToTitle := (urlToTitle c)(url r \<mapsto> title r)\<rparr>"

definition addGithubResult :: "url_titles \<Rightarrow> SearchResult \<Rightarrow> url_titles" where
  "addGithubResult c r =
     c\<lparr>allUrls := setAdd (url r) (allUrls c),
       urlToTitle := (if urlToTitle c (url r) = None then (urlToTitle c)(url r \<mapsto> title r)
                      else urlToTitle c)\<rparr>"

definition scanMassive_maxResults :: "ScanMassiveOptions option \<Rightarrow> nat" where
  "scanMassive_maxResults options =
     numOr (case options of None \<Rightarrow> None | Some opt \<Rightarrow> sm_maxResultsPerQuery opt) 50"

definition scanMassive_useGeneric :: "ScanMassiveOptions option \<Rightarrow> bool" where
  "scanMassive_useGeneric options =
     ((case options of None \<Rightarrow> None | Some opt \<Rightarrow> sm_useGenericQueries opt) \<noteq> Some False)"

definition scanMassive_collect :: "env \<Rightarrow> ScanMassiveOptions option \<Rightarrow> url_titles" where
  "scanMassive_collect e options =
     (let maxResultsPerQuery = scanMassive_maxResults options;
          useGenericQueries = scanMassive_useGeneric options;
          c0 = \<lparr>allUrls = [], urlToTitle = Map.empty\<rparr>;
          c1 = (case getShopifyDomainsFromCT (crtShopify e) (Some (maxResultsPerQuery * 10)) of
                  Inl err \<Rightarrow> c0
                | Inr ctResults \<Rightarrow> foldl addCtResult c0 ctResults)
      in if useGenericQueries
         then (case getShopifyUrlsFromGitHub e maxResultsPerQuery of
                 Inl err \<Rightarrow> c1
               | Inr githubResults \<Rightarrow> foldl addGithubResult c1 githubResults)
         else c1)"

definition scanMassive_run :: "env \<Rightarrow> ScanMassiveOptions option \<Rightarrow> ScanResult scan_state" where
  "scanMassive_run e options =
     (let tmo = numOr (case options of None \<Rightarrow> None | Some opt \<Rightarrow> sm_timeout opt) 10000;
          c = scanMassive_collect e options
      in scanNiche_loop e tmo
           (map (\<lambda>u. \<lparr>title = orElse (urlToTitle c u) u, url = u\<rparr>) (allUrls c)) initState)"


section \<open>The item a pipeline records for one candidate\<close>

text \<open>
  Every iteration of an analysis loop pushes one result. These functions name it: the
  result the iteration pushes when it starts from the empty state.
\<close>

definition scanNiche_result :: "env \<Rightarrow> nat \<Rightarrow> SearchResult \<Rightarrow> ScanResult" where
  "scanNiche_result e tmo sr = last (st_results (scanNiche_item e tmo sr initState))"


definition processUrl_result :: "env \<Rightarrow> SearchResult \<Rightarrow> NicheScanResultItem" where
  "processUrl_result e sr = last (st_results (processUrl e sr initState))"


definition dnsResolves :: "env \<Rightarrow> string \<Rightarrow> bool" where
  "dnsResolves e u =
     (case hostnameOf e u of
        None \<Rightarrow> False
      | Some d \<Rightarrow> (case lookup e d of Inl err \<Rightarrow> False | Inr a \<Rightarrow> True))"


definition returnsContent :: "env \<Rightarrow> string \<Rightarrow> timeout_or_options \<Rightarrow> string \<Rightarrow> bool" where
  "returnsContent e u a html = (dnsResolves e u \<and> fetchHtml e u a None = Inr (Some html))"




section \<open>What an aggregation run is given\<close>

text \<open>
  The candidates the harvest calls of one run return, in call order (a call that throws
  gives none), and the title of the first occurrence of a URL among them.
\<close>

definition searchHits :: "env \<Rightarrow> nat \<Rightarrow> string \<Rightarrow> SearchResult list" where
  "searchHits e n q =
     (case searchBing e q n of Inl err \<Rightarrow> [] | Inr searchResults \<Rightarrow> searchResults)"

definition bulkHits :: "env \<Rightarrow> BingBulkScanOptions \<Rightarrow> SearchResult list" where
  "bulkHits e options =
     concat (map (searchHits e (scanBingBulk_maxResults options)) (bulk_queries options))"

definition ctHits :: "env \<Rightarrow> ScanMassiveOptions option \<Rightarrow> SearchResult list" where
  "ctHits e options =
     (case getShopifyDomainsFromCT (crtShopify e)
             (Some (scanMassive_maxResults options * 10)) of
        Inl err \<Rightarrow> []
      | Inr ctResults \<Rightarrow> ctResults)"

definition githubHits :: "env \<Rightarrow> ScanMassiveOptions option \<Rightarrow> SearchResult list" where
  "githubHits e options =
     (if scanMassive_useGeneric options
      then (case getShopifyUrlsFromGitHub e (scanMassive_maxResults options) of
              Inl err \<Rightarrow> []
            | Inr githubResults \<Rightarrow> githubResults)
      else [])"

definition firstTitle :: "SearchResult list \<Rightarrow> string \<Rightarrow> string option" where
  "firstTitle hits u = map_option title (find (\<lambda>r. url r = u) hits)"

text \<open>The invariant of the two containers: the map has a title exactly for the URLs of the set.\<close>

definition titled :: "'a url_titles_scheme \<Rightarrow> bool" where
  "titled c = (\<forall>u. (u \<in> set (allUrls c)) = (urlToTitle c u \<noteq> None))"

section \<open>The classifier on content of any code units\<close>

text \<open>
  The pipelines above are modelled on content of code units below \<open>0x100\<close>. A page can hold
  any UTF-16 code unit, and there \<open>String.prototype.toLowerCase\<close> and the regular
  expressions do not agree on case: the lower-case mapping of a string follows the Unicode
  tables of the engine (it can map a code unit above \<open>0x7F\<close> to an ASCII letter and can
  change the length), while a regular expression with the \<open>i\<close> flag and no \<open>u\<close> flag
  compares code units after \<open>Canonicalize\<close>, the upper-case mapping of one code unit.
  Both are built-ins of the engine, so the classifier takes them as parameters; what is
  proved of it holds for every engine.
\<close>

type_synonym code_unit = "16 word"

type_synonym utf16 = "code_unit list"

record engine =
  String_toLowerCase :: "utf16 \<Rightarrow> utf16"
  RegExp_Canonicalize :: "code_unit \<Rightarrow> code_unit"

text \<open>The text of a pattern is ASCII; these are its code units.\<close>

definition codeUnits :: "string \<Rightarrow> utf16" where
  "codeUnits s = map of_char s"

text \<open>\<open>pattern.test(s)\<close> for a literal pattern with the \<open>i\<close> flag, on a string of code units.\<close>

definition regex_test_i_utf16 :: "engine \<Rightarrow> string \<Rightarrow> utf16 \<Rightarrow> bool" where
  "regex_test_i_utf16 E pat s =
     str_includes (map (RegExp_Canonicalize E) s) (map (RegExp_Canonicalize E) (codeUnits pat))"

fun firstMatch_utf16 :: "engine \<Rightarrow> string list \<Rightarrow> utf16 \<Rightarrow> bool" where
  "firstMatch_utf16 E [] s = False"
| "firstMatch_utf16 E (p # ps) s =
     (if regex_test_i_utf16 E p s then True else firstMatch_utf16 E ps s)"

fun countMatches_utf16 :: "engine \<Rightarrow> string list \<Rightarrow> utf16 \<Rightarrow> nat \<Rightarrow> nat" where
  "countMatches_utf16 E [] s n = n"
| "countMatches_utf16 E (p # ps) s n =
     countMatches_utf16 E ps s (if regex_test_i_utf16 E p s then n + 1 else n)"

text \<open>\<open>isShopifyHtml\<close>, statement by statement, with the built-ins of the engine \<open>E\<close>.\<close>

definition isShopifyHtml_utf16 :: "engine \<Rightarrow> utf16 option \<Rightarrow> bool" where
  "isShopifyHtml_utf16 E html =
     (case html of
        None \<Rightarrow> False
      | Some h \<Rightarrow>
          if length h = 0 then False
          else
            let htmlLower = String_toLowerCase E h in
            if firstMatch_utf16 E highConfidencePatterns htmlLower then True
            else
              let highCount = countMatches_utf16 E highConfidencePatterns htmlLower 0;
                  mediumCount = countMatches_utf16 E mediumConfidencePatterns htmlLower 0;
                  lowCount = countMatches_utf16 E lowConfidencePatterns htmlLower 0
              in if highCount \<ge> 1 then True
                 else if mediumCount \<ge> 2 then True
                 else if mediumCount \<ge> 1 \<and> lowCount \<ge> 2 then True
                 else
                   let hasMyshopify = regex_test_i_utf16 E ''.myshopify.com'' htmlLower
                   in if hasMyshopify \<and> mediumCount + lowCount \<ge> 3 then True
                      else False)"

text \<open>
  The tiered rule of the specification on a string of code units: the number of patterns
  of a tier that match it, and the four ways to be positive.
\<close>

definition tierCount_utf16 :: "engine \<Rightarrow> string list \<Rightarrow> utf16 \<Rightarrow> nat" where
  "tierCount_utf16 E ps content = length (filter (\<lambda>p. regex_test_i_utf16 E p content) ps)"

definition tieredRule_utf16 :: "engine \<Rightarrow> utf16 \<Rightarrow> bool" where
  "tieredRule_utf16 E content =
     (tierCount_utf16 E highConfidencePatterns content \<ge> 1
      \<or> tierCount_utf16 E mediumConfidencePatterns content \<ge> 2
      \<or> (tierCount_utf16 E mediumConfidencePatterns content \<ge> 1
          \<and> tierCount_utf16 E lowConfidencePatterns content \<ge> 2)
      \<or> (regex_test_i_utf16 E ''.myshopify.com'' content
          \<and> tierCount_utf16 E mediumConfidencePatterns content
              + tierCount_utf16 E lowConfidencePatterns content \<ge> 3))"

text \<open>
  The built-ins of an engine on the code units below \<open>0x100\<close> and on the two letter-like
  symbols whose lower case is in that range, the Kelvin sign \<open>U+212A\<close> and the Angstrom sign
  \<open>U+212B\<close>; the examples hold no other code unit. The lower case of \<open>A\<close> to \<open>Z\<close> and of
  \<open>0xC0\<close> to \<open>0xDE\<close> (without \<open>0xD7\<close>) is 32 above, that of the Kelvin sign is \<open>k\<close>, that of
  the Angstrom sign is \<open>0xE5\<close>. \<open>Canonicalize\<close> takes the upper case where it is one code
  unit, and keeps a code unit above \<open>0x7F\<close> whose upper case is below \<open>0x80\<close>: the small
  letters move down by 32, the micro sign \<open>0xB5\<close> goes to \<open>U+039C\<close>, \<open>0xFF\<close> to \<open>U+0178\<close>,
  and \<open>0xDF\<close>, whose upper case is two code units, stays, as do the two signs.
\<close>

definition lowerUnit :: "code_unit \<Rightarrow> code_unit" where
  "lowerUnit c =
     (if (0x41 \<le> c \<and> c \<le> 0x5A) \<or> (0xC0 \<le> c \<and> c \<le> 0xDE \<and> c \<noteq> 0xD7) then c + 0x20
      else if c = 0x212A then 0x6B
      else if c = 0x212B then 0xE5
      else c)"

definition canonicalUnit :: "code_unit \<Rightarrow> code_unit" where
  "canonicalUnit c =
     (if (0x61 \<le> c \<and> c \<le> 0x7A) \<or> (0xE0 \<le> c \<and> c \<le> 0xFE \<and> c \<noteq> 0xF7) then c - 0x20
      else if c = 0xB5 then 0x39C
      else if c = 0xFF then 0x178
      else c)"

definition latinEngine :: engine where
  "latinEngine = \<lparr>String_toLowerCase = map lowerUnit, RegExp_Canonicalize = canonicalUnit\<rparr>"

text \<open>
  Two pages: one in capitals, and one that spells \<open>shopify.checkout\<close> with the Kelvin sign
  for its \<open>k\<close>.
\<close>

definition capitalsPage :: utf16 where
  "capitalsPage = codeUnits ''<SCRIPT SRC=//CDN.SHOPIFY.COM/S.JS>''"

definition kelvinPage :: utf16 where
  "kelvinPage = codeUnits ''shopify.chec'' @ [0x212A] @ codeUnits ''out''"

section \<open>An example environment\<close>

text \<open>
  A small world for the concrete runs: three search engines of which only Bing answers, a
  resolver that knows every host but \<open>down.example\<close>, and five pages. The page of
  \<open>shop.example\<close> is 155 characters long and names the CDN host.
\<close>

definition pageTierA :: string where
  "pageTierA =
     ''<html><head><title>Store</title><link rel=stylesheet href=https://''
     @ ''cdn.shopify.com''
     @ ''/s/files/1/0001/assets/theme.css></head><body><h1>Store</h1></body></html>''"

definition hit :: "string \<Rightarrow> string \<Rightarrow> SearchResult" where
  "hit t u = \<lparr>title = t, url = u\<rparr>"

definition blocked :: js_error where
  "blocked = JsError ''Error'' ''blocked''"

definition exampleFetch :: "string \<Rightarrow> nat \<Rightarrow> http_method \<Rightarrow> bool \<Rightarrow> fetch_outcome" where
  "exampleFetch u t m follow =
     (if u = ''https://gone.example'' then FetchResponse False (Inr ''Not Found'')
      else if u = ''https://shop.example'' then FetchResponse True (Inr pageTierA)
      else if u = ''https://short.example'' then FetchResponse True (Inr ''cdn.shopify.com'')
      else if u = ''https://ok.example'' then FetchResponse True (Inr ''ok'')
      else FetchRejected (JsError ''AbortError'' ''This operation was aborted''))"

definition exampleBing :: "string \<Rightarrow> nat \<Rightarrow> js_error + SearchResult list" where
  "exampleBing q n =
     (if q = ''shoes''
      then Inr [hit ''Down'' ''https://down.example'', hit ''Gone'' ''https://gone.example'',
                hit ''Shop'' ''https://shop.example'']
      else if q = ''short''
      then Inr [hit ''Down'' ''https://down.example'', hit ''Gone'' ''https://gone.example'',
                hit ''Short'' ''https://short.example'']
      else if q = ''hats''
      then Inr [hit ''Shop again'' ''https://shop.example'', hit ''Ok'' ''https://ok.example'']
      else Inl blocked)"

definition ctScenario :: ct_response where
  "ctScenario =
     CtResponse True ''200 OK''
       (Inr [Some ''*.store1.myshopify.com'', Some ''www.store1.myshopify.com'',
             Some ''admin.myshopify.com''])"

definition exampleEnv :: env where
  "exampleEnv =
     \<lparr>hostnameOf = (\<lambda>u. if startsWith u ''https://'' then Some (drop 8 u) else None),
      lookup = (\<lambda>d. if d = ''down.example''
                     then Inl (JsError ''Error'' ''getaddrinfo ENOTFOUND down.example'')
                     else Inr ''192.0.2.7''),
      dnsResolveCname = (\<lambda>d. Inl (''ENODATA'', JsError ''Error'' ''queryCname ENODATA'')),
      fetch = exampleFetch,
      searchGoogle = (\<lambda>q n. Inl blocked),
      searchDuckDuckGo = (\<lambda>q n. Inl blocked),
      searchBing = exampleBing,
      searchWithAPI = (\<lambda>q n. Inl blocked),
      getShopifyUrlsFromGitHub =
        (\<lambda>n. Inr [hit ''From GitHub'' ''https://store1.myshopify.com'',
                    hit ''Other'' ''https://other.myshopify.com'']),
      SERP_API_KEY = None,
      nowISO = ''2025-11-29T18:00:00.000Z'',
      crtShopify = ctScenario\<rparr>"

definition shortOptions :: BingBulkScanOptions where
  "shortOptions =
     \<lparr>bulk_queries = [''short''], bulk_maxResultsPerQuery = None, bulk_timeout = None\<rparr>"

definition shoesOptions :: BingBulkScanOptions where
  "shoesOptions =
     \<lparr>bulk_queries = [''shoes''], bulk_maxResultsPerQuery = None, bulk_timeout = None\<rparr>"

definition shoesHatsOptions :: BingBulkScanOptions where
  "shoesHatsOptions =
     \<lparr>bulk_queries = [''shoes'', ''hats''], bulk_maxResultsPerQuery = None, bulk_timeout = None\<rparr>"

definition hatsShoesOptions :: BingBulkScanOptions where
  "hatsShoesOptions =
     \<lparr>bulk_queries = [''hats'', ''shoes''], bulk_maxResultsPerQuery = None, bulk_timeout = None\<rparr>"

text \<open>
  Two worlds for the mass scan: one where crt.sh is unreachable for every request, one
  where every answer is a certificate list with two names.
\<close>

definition unreachableCt :: ct_env where
  "unreachableCt =
     \<lparr>monthRange = (\<lambda>i. (''20251029'', ''20251129'')),
      crtsh = (\<lambda>k. CtRejected (JsError ''TypeError'' ''fetch failed''))\<rparr>"

definition twoNamesCt :: ct_env where
  "twoNamesCt =
     \<lparr>monthRange = (\<lambda>i. (''20251029'', ''20251129'')),
      crtsh = (\<lambda>k. CtResponse True ''200 OK''
                       (Inr [Some ''b.myshopify.com'', Some ''a.myshopify.com'']))\<rparr>"

definition stopOptions :: MassCtOptions where
  "stopOptions = noOptions\<lparr>stopAfterConsecutiveErrors := Some 2, daysBack := Some 30\<rparr>"

definition capOptions :: MassCtOptions where
  "capOptions = noOptions\<lparr>maxTotalDomains := Some 1\<rparr>"

section \<open>Properties of the string model\<close>


lemma upper_fst: "list_all isUpperChar (map fst casePairs)"
  by (simp add: casePairs_def isUpperChar_def)
lemma lower_snd: "list_all isLowerChar (map snd casePairs)"
  by (simp add: casePairs_def isLowerChar_def)
lemma notlower_fst: "list_all (\<lambda>c. \<not> isLowerChar c) (map fst casePairs)"
  by (simp add: casePairs_def isLowerChar_def)
lemma distinct_snd: "distinct (map snd casePairs)"
  by (simp add: casePairs_def)

lemma canonicalize_toLowerChar: "canonicalize (toLowerChar c) = canonicalize c"
proof (cases "isUpperChar c \<and> map_of casePairs c \<noteq> None")
  case False
  then show ?thesis by (auto simp: toLowerChar_def)
next
  case True
  then obtain l where l: "map_of casePairs c = Some l" by auto
  then have mem: "(c, l) \<in> set casePairs" by (rule map_of_SomeD)
  have low: "toLowerChar c = l" using True l by (simp add: toLowerChar_def)
  have "l \<in> set (map snd casePairs)" using mem by force
  then have ll: "isLowerChar l" using lower_snd by (auto simp: list_all_iff)
  have "c \<in> set (map fst casePairs)" using mem by force
  then have nl: "\<not> isLowerChar c" using notlower_fst by (auto simp: list_all_iff)
  have "(l, c) \<in> set (map prod.swap casePairs)" using mem by force
  moreover have "distinct (map fst (map prod.swap casePairs))"
    using distinct_snd by (simp add: comp_def)
  ultimately have "map_of (map prod.swap casePairs) l = Some c" by (rule map_of_is_SomeI[rotated])
  then have "canonicalize l = c" using ll by (simp add: canonicalize_def)
  moreover have "canonicalize c = c" using nl by (simp add: canonicalize_def)
  ultimately show ?thesis using low by simp
qed

lemma canonicalize_letters:
  "canonicalize CHR ''a'' = CHR ''A''" "canonicalize CHR ''b'' = CHR ''B''"
  "canonicalize CHR ''c'' = CHR ''C''" "canonicalize CHR ''d'' = CHR ''D''"
  "canonicalize CHR ''e'' = CHR ''E''" "canonicalize CHR ''f'' = CHR ''F''"
  "canonicalize CHR ''g'' = CHR ''G''" "canonicalize CHR ''h'' = CHR ''H''"
  "canonicalize CHR ''i'' = CHR ''I''" "canonicalize CHR ''j'' = CHR ''J''"
  "canonicalize CHR ''k'' = CHR ''K''" "canonicalize CHR ''l'' = CHR ''L''"
  "canonicalize CHR ''m'' = CHR ''M''" "canonicalize CHR ''n'' = CHR ''N''"
  "canonicalize CHR ''o'' = CHR ''O''" "canonicalize CHR ''p'' = CHR ''P''"
  "canonicalize CHR ''q'' = CHR ''Q''" "canonicalize CHR ''r'' = CHR ''R''"
  "canonicalize CHR ''s'' = CHR ''S''" "canonicalize CHR ''t'' = CHR ''T''"
  "canonicalize CHR ''u'' = CHR ''U''" "canonicalize CHR ''v'' = CHR ''V''"
  "canonicalize CHR ''w'' = CHR ''W''" "canonicalize CHR ''x'' = CHR ''X''"
  "canonicalize CHR ''y'' = CHR ''Y''" "canonicalize CHR ''z'' = CHR ''Z''"
  by (simp_all add: canonicalize_def isLowerChar_def casePairs_def)

lemma canonicalize_other:
  "canonicalize CHR ''.'' = CHR ''.''" "canonicalize CHR ''-'' = CHR ''-''"
  "canonicalize CHR ''/'' = CHR ''/''" "canonicalize CHR ''S'' = CHR ''S''"
  by (simp_all add: canonicalize_def isLowerChar_def)

lemmas canon_eval = canonicalize_letters canonicalize_other

lemma regex_test_i_toLowerCase: "regex_test_i p (toLowerCase h) = regex_test_i p h"
  by (simp add: regex_test_i_def toLowerCase_def comp_def canonicalize_toLowerChar)

lemma firstMatch_iff: "firstMatch ps s = (\<exists>p\<in>set ps. regex_test_i p s)"
  by (induction ps) auto

lemma countMatches_eq: "countMatches ps s n = n + length (filter (\<lambda>p. regex_test_i p s) ps)"
  by (induction ps arbitrary: n) auto

lemma filter_ge1: "(Suc 0 \<le> length (filter P xs)) = (\<exists>x\<in>set xs. P x)"
  by (induction xs) auto

lemma regex_test_i_empty: "regex_test_i p [] = (p = [])"
  by (simp add: regex_test_i_def)

section \<open>The classifier\<close>

lemma tieredRule_empty: "\<not> tieredRule []"
  by (simp add: tieredRule_def tierCount_def regex_test_i_empty
      highConfidencePatterns_def mediumConfidencePatterns_def lowConfidencePatterns_def)

lemma isShopifyHtml_Some: "isShopifyHtml (Some content) = tieredRule content"
proof (cases "content = []")
  case True
  then show ?thesis using tieredRule_empty by (simp add: isShopifyHtml_def)
next
  case False
  then show ?thesis
    unfolding isShopifyHtml_def tieredRule_def tierCount_def Let_def
    by (simp add: firstMatch_iff countMatches_eq regex_test_i_toLowerCase filter_ge1)
qed

lemma addWeights_toLowerCase: "addWeights ps (toLowerCase h) s = addWeights ps h s"
  by (induction ps arbitrary: s) (auto simp: regex_test_i_toLowerCase)

lemma getShopifyConfidence_Some:
  "getShopifyConfidence (Some h) = (if h = [] then 0 else min (addWeights weightedPatterns h 0) 1)"
  by (simp add: getShopifyConfidence_def addWeights_toLowerCase)


section \<open>The analysis loops\<close>

lemmas st_defs = pushResult_def pushShopifyUrl_def logCall_def initState_def

lemma scanNiche_item_results:
  "st_results (scanNiche_item e tmo sr st) = st_results st @ [scanNiche_result e tmo sr]"
  by (simp add: scanNiche_item_def scanNiche_result_def st_defs Let_def
      split: option.splits sum.splits)

lemma scanNiche_result_url: "url (scanNiche_result e tmo sr) = url sr"
  by (simp add: scanNiche_item_def scanNiche_result_def st_defs Let_def
      split: option.splits sum.splits)

lemma scanNiche_item_shopifyUrls:
  "st_shopifyUrls (scanNiche_item e tmo sr st) =
     st_shopifyUrls st @ (if isShopifyFlag (scanNiche_result e tmo sr) then [url sr] else [])"
  by (simp add: scanNiche_item_def scanNiche_result_def st_defs Let_def
      split: option.splits sum.splits)


lemma scanNiche_loop_results:
  "st_results (scanNiche_loop e tmo srs st) = st_results st @ map (scanNiche_result e tmo) srs"
  by (induction srs arbitrary: st) (simp_all add: scanNiche_item_results)

lemma scanNiche_loop_shopifyUrls:
  "st_shopifyUrls (scanNiche_loop e tmo srs st) =
     st_shopifyUrls st @ map url (filter isShopifyFlag (map (scanNiche_result e tmo) srs))"
  by (induction srs arbitrary: st)
     (simp_all add: scanNiche_item_shopifyUrls scanNiche_result_url)











lemma processUrl_results:
  "st_results (processUrl e sr st) = st_results st @ [processUrl_result e sr]"
  by (simp add: processUrl_def processUrl_result_def st_defs Let_def
      split: option.splits sum.splits)

lemma processUrl_result_url: "url (processUrl_result e sr) = url sr"
  by (simp add: processUrl_def processUrl_result_def st_defs Let_def
      split: option.splits sum.splits)

lemma processUrl_shopifyUrls:
  "st_shopifyUrls (processUrl e sr st) =
     st_shopifyUrls st @ (if isShopifyFlag (processUrl_result e sr) then [url sr] else [])"
  by (simp add: processUrl_def processUrl_result_def st_defs Let_def
      split: option.splits sum.splits)


lemma processAll_results:
  "st_results (processAll e srs st) = st_results st @ map (processUrl_result e) srs"
  by (induction srs arbitrary: st) (simp_all add: processUrl_results)

lemma processAll_shopifyUrls:
  "st_shopifyUrls (processAll e srs st) =
     st_shopifyUrls st @ map url (filter isShopifyFlag (map (processUrl_result e) srs))"
  by (induction srs arbitrary: st) (simp_all add: processUrl_shopifyUrls processUrl_result_url)





lemma scanMassive_run_shopifyUrls:
  "st_shopifyUrls (scanMassive_run e options) =
     map url (filter isShopifyFlag (st_results (scanMassive_run e options)))"
  by (simp add: scanMassive_run_def Let_def scanNiche_loop_results scanNiche_loop_shopifyUrls
      initState_def)



lemma scanNicheWithBing_run_shopifyUrls:
  "st_shopifyUrls (scanNicheWithBing_run e q maxResults) =
     map url (filter isShopifyFlag (st_results (scanNicheWithBing_run e q maxResults)))"
  by (simp add: scanNicheWithBing_run_def processAll_results processAll_shopifyUrls initState_def
      split: sum.splits)





section \<open>The probes and the example environment\<close>

lemma fetchHtml_cases:
  "fetchHtml e u a opt =
     (case fetchOutcome e u a opt of
        FetchRejected err \<Rightarrow> Inr None
      | FetchResponse ok body \<Rightarrow>
          if \<not> ok then Inr None
          else if methodOf (resolveOptions a opt) = HEAD then Inr (Some [])
          else (case body of Inl err \<Rightarrow> Inr None | Inr html \<Rightarrow> Inr (Some html)))"
  by (simp add: fetchHtml_def fetchHtml_try_def fetchOutcome_def Let_def
      split: fetch_outcome.splits sum.splits)

lemma exampleEnv_simps:
  "hostnameOf exampleEnv = (\<lambda>u. if startsWith u ''https://'' then Some (drop 8 u) else None)"
  "lookup exampleEnv = (\<lambda>d. if d = ''down.example''
                     then Inl (JsError ''Error'' ''getaddrinfo ENOTFOUND down.example'')
                     else Inr ''192.0.2.7'')"
  "fetch exampleEnv = exampleFetch"
  "searchBing exampleEnv = exampleBing"
  "searchGoogle exampleEnv = (\<lambda>q n. Inl blocked)"
  "searchDuckDuckGo exampleEnv = (\<lambda>q n. Inl blocked)"
  "searchWithAPI exampleEnv = (\<lambda>q n. Inl blocked)"
  "SERP_API_KEY exampleEnv = None"
  "crtShopify exampleEnv = ctScenario"
  by (simp_all add: exampleEnv_def)

lemma example_outcomes:
  "fetchOutcome exampleEnv ''https://shop.example'' a None = FetchResponse True (Inr pageTierA)"
  "fetchOutcome exampleEnv ''https://short.example'' a None
     = FetchResponse True (Inr ''cdn.shopify.com'')"
  "fetchOutcome exampleEnv ''https://ok.example'' a None = FetchResponse True (Inr ''ok'')"
  "fetchOutcome exampleEnv ''https://gone.example'' a None
     = FetchResponse False (Inr ''Not Found'')"
  "fetchOutcome exampleEnv ''https://slow.example'' a None
     = FetchRejected (JsError ''AbortError'' ''This operation was aborted'')"
  by (simp_all add: fetchOutcome_def Let_def exampleEnv_simps exampleFetch_def)




section \<open>The aggregation\<close>

lemma firstTitle_Nil: "firstTitle [] u = None"
  by (simp add: firstTitle_def)

lemma firstTitle_Cons:
  "firstTitle (r # rs) u = (if url r = u then Some (title r) else firstTitle rs u)"
  by (simp add: firstTitle_def)

lemma firstTitle_append:
  "firstTitle (xs @ ys) u =
     (case firstTitle xs u of Some t \<Rightarrow> Some t | None \<Rightarrow> firstTitle ys u)"
  by (induction xs) (simp_all add: firstTitle_Nil firstTitle_Cons)

lemma firstTitle_None: "(firstTitle hs u = None) = (u \<notin> url ` set hs)"
  by (induction hs) (auto simp add: firstTitle_Nil firstTitle_Cons)

lemma addSearchResults_props:
  assumes "titled c" "distinct (allUrls c)"
  shows "titled (addSearchResults q rs c)
    \<and> distinct (allUrls (addSearchResults q rs c))
    \<and> set (allUrls (addSearchResults q rs c)) = set (allUrls c) \<union> url ` set rs
    \<and> (\<forall>u. urlToTitle (addSearchResults q rs c) u =
           (case urlToTitle c u of Some t \<Rightarrow> Some t | None \<Rightarrow> firstTitle rs u))"
  using assms
proof (induction rs arbitrary: c)
  case Nil
  then show ?case by (simp add: firstTitle_Nil split: option.splits)
next
  case (Cons r rs)
  let ?c = "if url r \<notin> set (allUrls c)
        then c\<lparr>allUrls := allUrls c @ [url r],
               urlToTitle := (urlToTitle c)(url r \<mapsto> title r),
               urlToQuery := (urlToQuery c)(url r \<mapsto> q)\<rparr>
        else c"
  have t: "titled ?c" using Cons.prems by (auto simp add: titled_def)
  have d: "distinct (allUrls ?c)" using Cons.prems by auto
  have s: "set (allUrls ?c) = set (allUrls c) \<union> {url r}" by auto
  have m: "\<forall>u. urlToTitle ?c u =
             (case urlToTitle c u of Some t \<Rightarrow> Some t
              | None \<Rightarrow> if url r = u then Some (title r) else None)"
    using Cons.prems(1) by (auto simp add: titled_def split: option.splits)
  note ih = Cons.IH [OF t d]
  have a: "addSearchResults q (r # rs) c = addSearchResults q rs ?c" by simp
  show ?case
    unfolding a using ih s m
    by (auto simp add: firstTitle_Cons split: option.splits)
qed

lemma collectQueries_props:
  assumes "titled c" "distinct (allUrls c)"
  shows "titled (collectQueries e n qs c)
    \<and> distinct (allUrls (collectQueries e n qs c))
    \<and> set (allUrls (collectQueries e n qs c))
        = set (allUrls c) \<union> url ` set (concat (map (searchHits e n) qs))
    \<and> (\<forall>u. urlToTitle (collectQueries e n qs c) u =
           (case urlToTitle c u of Some t \<Rightarrow> Some t
            | None \<Rightarrow> firstTitle (concat (map (searchHits e n) qs)) u))"
  using assms
proof (induction qs arbitrary: c)
  case Nil
  then show ?case by (simp add: firstTitle_Nil split: option.splits)
next
  case (Cons q qs)
  show ?case
  proof (cases "searchBing e q n")
    case (Inl err)
    then have h: "searchHits e n q = []" by (simp add: searchHits_def)
    show ?thesis using Cons.IH [OF Cons.prems] Inl by (simp add: h split: option.splits)
  next
    case (Inr rs)
    then have h: "searchHits e n q = rs" by (simp add: searchHits_def)
    note p = addSearchResults_props [OF Cons.prems, of q rs]
    have t: "titled (addSearchResults q rs c)" "distinct (allUrls (addSearchResults q rs c))"
      using p by simp_all
    note ih = Cons.IH [OF t]
    have a: "collectQueries e n (q # qs) c = collectQueries e n qs (addSearchResults q rs c)"
      using Inr by simp
    have s: "set (allUrls (collectQueries e n (q # qs) c))
        = set (allUrls c) \<union> url ` set (concat (map (searchHits e n) (q # qs)))"
      unfolding a using ih p by (auto simp add: h)
    have m: "\<forall>u. urlToTitle (collectQueries e n (q # qs) c) u =
           (case urlToTitle c u of Some t \<Rightarrow> Some t
            | None \<Rightarrow> firstTitle (concat (map (searchHits e n) (q # qs))) u)"
      unfolding a using ih p by (simp add: h firstTitle_append split: option.splits)
    from ih s m show ?thesis unfolding a by blast
  qed
qed

lemma noUrls_titled: "titled noUrls" "distinct (allUrls noUrls)" "allUrls noUrls = []"
  "urlToTitle noUrls = Map.empty"
  by (simp_all add: titled_def noUrls_def)

lemma scanBingBulk_collect_props:
  "distinct (allUrls (scanBingBulk_collect e options))"
  "set (allUrls (scanBingBulk_collect e options)) = url ` set (bulkHits e options)"
  "urlToTitle (scanBingBulk_collect e options) = firstTitle (bulkHits e options)"
  using collectQueries_props [OF noUrls_titled(1,2), of e "scanBingBulk_maxResults options"
      "bulk_queries options"]
  by (auto simp add: scanBingBulk_collect_def bulkHits_def noUrls_titled)

lemma addSearchResults_known:
  "url ` set rs \<subseteq> set (allUrls c) \<Longrightarrow> addSearchResults q rs c = c"
  by (induction rs arbitrary: c) simp_all

lemma collectQueries_known:
  "url ` set (concat (map (searchHits e n) qs)) \<subseteq> set (allUrls c)
   \<Longrightarrow> collectQueries e n qs c = c"
proof (induction qs arbitrary: c)
  case Nil
  then show ?case by simp
next
  case (Cons q qs)
  have k: "url ` set (searchHits e n q) \<subseteq> set (allUrls c)"
    "url ` set (concat (map (searchHits e n) qs)) \<subseteq> set (allUrls c)"
    using Cons.prems by auto
  have "(case searchBing e q n of Inl err \<Rightarrow> c | Inr rs \<Rightarrow> addSearchResults q rs c) = c"
    using k(1) by (auto simp add: searchHits_def addSearchResults_known split: sum.splits)
  then show ?case using Cons.IH [OF k(2)] by simp
qed

lemma collectQueries_append:
  "collectQueries e n (qs @ qs') c = collectQueries e n qs' (collectQueries e n qs c)"
  by (induction qs arbitrary: c) simp_all

lemma collectQueries_twice:
  "collectQueries e n (qs @ qs) noUrls = collectQueries e n qs noUrls"
proof -
  note p = collectQueries_props [OF noUrls_titled(1,2), of e n qs]
  have "url ` set (concat (map (searchHits e n) qs))
          \<subseteq> set (allUrls (collectQueries e n qs noUrls))"
    using p by simp
  then show ?thesis by (simp add: collectQueries_append collectQueries_known)
qed

lemma hits_same_queries:
  assumes "set qs' = set qs"
  shows "set (concat (map (searchHits e n) qs')) = set (concat (map (searchHits e n) qs))"
  using assms by simp

text \<open>scanMassive: the two loops over the results of the two sources.\<close>

lemma distinct_setAdd: "distinct xs \<Longrightarrow> distinct (setAdd x xs)"
  by (simp add: setAdd_def)

lemma set_setAdd: "set (setAdd x xs) = insert x (set xs)"
  by (auto simp add: setAdd_def)

lemma foldl_addCtResult_props:
  assumes "titled c" "distinct (allUrls c)" "distinct (map url rs)"
    "set (allUrls c) \<inter> url ` set rs = {}"
  shows "titled (foldl addCtResult c rs)
    \<and> distinct (allUrls (foldl addCtResult c rs))
    \<and> set (allUrls (foldl addCtResult c rs)) = set (allUrls c) \<union> url ` set rs
    \<and> (\<forall>u. urlToTitle (foldl addCtResult c rs) u =
           (case urlToTitle c u of Some t \<Rightarrow> Some t | None \<Rightarrow> firstTitle rs u))"
  using assms
proof (induction rs arbitrary: c)
  case Nil
  then show ?case by (simp add: firstTitle_Nil split: option.splits)
next
  case (Cons r rs)
  let ?c = "addCtResult c r"
  have new: "url r \<notin> set (allUrls c)" "urlToTitle c (url r) = None"
    using Cons.prems(1,4) by (auto simp add: titled_def)
  have t: "titled ?c"
    using Cons.prems(1) by (auto simp add: titled_def addCtResult_def set_setAdd)
  have d: "distinct (allUrls ?c)"
    using Cons.prems(2) by (simp add: addCtResult_def distinct_setAdd)
  have s: "set (allUrls ?c) = set (allUrls c) \<union> {url r}"
    by (simp add: addCtResult_def set_setAdd)
  have dr: "distinct (map url rs)" using Cons.prems(3) by simp
  have dj: "set (allUrls ?c) \<inter> url ` set rs = {}"
    unfolding s using Cons.prems(3,4) by auto
  have m: "\<forall>u. urlToTitle ?c u =
             (case urlToTitle c u of Some t \<Rightarrow> Some t
              | None \<Rightarrow> if url r = u then Some (title r) else None)"
    using new by (auto simp add: addCtResult_def split: option.splits)
  note ih = Cons.IH [OF t d dr dj]
  have a: "foldl addCtResult c (r # rs) = foldl addCtResult ?c rs" by simp
  show ?case
    unfolding a using ih s m
    by (auto simp add: firstTitle_Cons split: option.splits)
qed

lemma foldl_addGithubResult_props:
  assumes "titled c" "distinct (allUrls c)"
  shows "titled (foldl addGithubResult c rs)
    \<and> distinct (allUrls (foldl addGithubResult c rs))
    \<and> set (allUrls (foldl addGithubResult c rs)) = set (allUrls c) \<union> url ` set rs
    \<and> (\<forall>u. urlToTitle (foldl addGithubResult c rs) u =
           (case urlToTitle c u of Some t \<Rightarrow> Some t | None \<Rightarrow> firstTitle rs u))"
  using assms
proof (induction rs arbitrary: c)
  case Nil
  then show ?case by (simp add: firstTitle_Nil split: option.splits)
next
  case (Cons r rs)
  let ?c = "addGithubResult c r"
  have t: "titled ?c"
    using Cons.prems(1) by (auto simp add: titled_def addGithubResult_def set_setAdd)
  have d: "distinct (allUrls ?c)"
    using Cons.prems(2) by (simp add: addGithubResult_def distinct_setAdd)
  have s: "set (allUrls ?c) = set (allUrls c) \<union> {url r}"
    by (simp add: addGithubResult_def set_setAdd)
  have m: "\<forall>u. urlToTitle ?c u =
             (case urlToTitle c u of Some t \<Rightarrow> Some t
              | None \<Rightarrow> if url r = u then Some (title r) else None)"
    by (auto simp add: addGithubResult_def split: option.splits)
  note ih = Cons.IH [OF t d]
  have a: "foldl addGithubResult c (r # rs) = foldl addGithubResult ?c rs" by simp
  show ?case
    unfolding a using ih s m
    by (auto simp add: firstTitle_Cons split: option.splits)
qed

lemma distinct_addShopifyDomain: "distinct ds \<Longrightarrow> distinct (addShopifyDomain ds l)"
  by (simp add: addShopifyDomain_def Let_def distinct_setAdd split: list.splits)

lemma distinct_foldl_addShopifyDomain:
  "distinct ds \<Longrightarrow> distinct (foldl addShopifyDomain ds ls)"
  by (induction ls arbitrary: ds) (simp_all add: distinct_addShopifyDomain)

lemma distinct_shopifyDomainsLoop:
  "distinct ds \<Longrightarrow> distinct (shopifyDomainsLoop m certs p ds)"
  by (induction certs arbitrary: p ds)
     (simp_all add: Let_def distinct_foldl_addShopifyDomain)

lemma ctHits_distinct: "distinct (map url (ctHits e options))"
proof -
  have "distinct (map (\<lambda>d. ''https://'' @ d) ds)" if "distinct ds" for ds :: "string list"
    using that by (simp add: distinct_map inj_on_def)
  then show ?thesis
    by (auto simp add: ctHits_def getShopifyDomainsFromCT_def Let_def comp_def
        distinct_shopifyDomainsLoop split: ct_response.splits sum.splits)
qed

lemma scanMassive_collect_eq:
  "scanMassive_collect e options =
     foldl addGithubResult
       (foldl addCtResult \<lparr>allUrls = [], urlToTitle = Map.empty\<rparr> (ctHits e options))
       (githubHits e options)"
  by (simp add: scanMassive_collect_def ctHits_def githubHits_def Let_def split: sum.splits)

lemma scanMassive_collect_props:
  "distinct (allUrls (scanMassive_collect e options))"
  "set (allUrls (scanMassive_collect e options))
     = url ` (set (ctHits e options) \<union> set (githubHits e options))"
  "urlToTitle (scanMassive_collect e options)
     = firstTitle (ctHits e options @ githubHits e options)"
proof -
  let ?c0 = "\<lparr>allUrls = [], urlToTitle = Map.empty\<rparr> :: url_titles"
  have z: "titled ?c0" "distinct (allUrls ?c0)"
    "set (allUrls ?c0) \<inter> url ` set (ctHits e options) = {}"
    by (simp_all add: titled_def)
  note p1 = foldl_addCtResult_props [OF z(1,2) ctHits_distinct z(3)]
  have t1: "titled (foldl addCtResult ?c0 (ctHits e options))"
    "distinct (allUrls (foldl addCtResult ?c0 (ctHits e options)))"
    using p1 by simp_all
  note p2 = foldl_addGithubResult_props [OF t1, of "githubHits e options"]
  show "distinct (allUrls (scanMassive_collect e options))"
    unfolding scanMassive_collect_eq using p2 by simp
  show "set (allUrls (scanMassive_collect e options))
     = url ` (set (ctHits e options) \<union> set (githubHits e options))"
    unfolding scanMassive_collect_eq using p1 p2 by auto
  show "urlToTitle (scanMassive_collect e options)
     = firstTitle (ctHits e options @ githubHits e options)"
  proof
    fix u
    have a: "urlToTitle (foldl addCtResult ?c0 (ctHits e options)) u
               = firstTitle (ctHits e options) u"
      using p1 by simp
    have b: "urlToTitle (scanMassive_collect e options) u =
        (case urlToTitle (foldl addCtResult ?c0 (ctHits e options)) u of
           Some t \<Rightarrow> Some t | None \<Rightarrow> firstTitle (githubHits e options) u)"
      unfolding scanMassive_collect_eq using p2 by blast
    show "urlToTitle (scanMassive_collect e options) u
            = firstTitle (ctHits e options @ githubHits e options) u"
      unfolding b a by (simp add: firstTitle_append split: option.splits)
  qed
qed

lemma set_foldl_addCtResult:
  "set (allUrls (foldl addCtResult c rs)) = set (allUrls c) \<union> url ` set rs"
  by (induction rs arbitrary: c) (auto simp add: addCtResult_def set_setAdd)

lemma set_foldl_addGithubResult:
  "set (allUrls (foldl addGithubResult c rs)) = set (allUrls c) \<union> url ` set rs"
  by (induction rs arbitrary: c) (auto simp add: addGithubResult_def set_setAdd)

lemma scanMassive_merge_again:
  "set (allUrls (foldl addGithubResult
                   (foldl addCtResult (scanMassive_collect e options) (ctHits e options))
                   (githubHits e options)))
     = set (allUrls (scanMassive_collect e options))"
  unfolding set_foldl_addGithubResult set_foldl_addCtResult scanMassive_collect_props(2)
  by auto

lemma scanBingBulk_collect_twice:
  "scanBingBulk_collect e (options\<lparr>bulk_queries := bulk_queries options @ bulk_queries options\<rparr>)
     = scanBingBulk_collect e options"
  by (simp add: scanBingBulk_collect_def scanBingBulk_maxResults_def collectQueries_twice)

lemma scanBingBulk_collect_order:
  assumes "set (bulk_queries options') = set (bulk_queries options)"
    "bulk_maxResultsPerQuery options' = bulk_maxResultsPerQuery options"
  shows "set (allUrls (scanBingBulk_collect e options'))
           = set (allUrls (scanBingBulk_collect e options))"
proof -
  have n: "scanBingBulk_maxResults options' = scanBingBulk_maxResults options"
    using assms(2) by (simp add: scanBingBulk_maxResults_def)
  have "set (bulkHits e options') = set (bulkHits e options)"
    unfolding bulkHits_def n by (rule hits_same_queries [OF assms(1)])
  then show ?thesis by (simp only: scanBingBulk_collect_props(2))
qed

lemma example_merge:
  "allUrls (scanBingBulk_collect exampleEnv shoesHatsOptions)
     = [''https://down.example'', ''https://gone.example'', ''https://shop.example'',
        ''https://ok.example'']"
  "allUrls (scanBingBulk_collect exampleEnv hatsShoesOptions)
     = [''https://shop.example'', ''https://ok.example'', ''https://down.example'',
        ''https://gone.example'']"
  "urlToTitle (scanBingBulk_collect exampleEnv shoesHatsOptions) ''https://shop.example''
     = Some ''Shop''"
  "urlToTitle (scanBingBulk_collect exampleEnv hatsShoesOptions) ''https://shop.example''
     = Some ''Shop again''"
  by (simp_all add: scanBingBulk_collect_def scanBingBulk_maxResults_def shoesHatsOptions_def
      hatsShoesOptions_def noUrls_def exampleEnv_simps exampleBing_def hit_def)

section \<open>The certificate-log adapters on the example answers\<close>

lemma getShopifyDomainsFromCT_scenario:
  "getShopifyDomainsFromCT ctScenario None
     = Inr [\<lparr>title = ''store1.myshopify.com'', url = ''https://store1.myshopify.com''\<rparr>]"
  by (simp add: getShopifyDomainsFromCT_def ctScenario_def addShopifyDomain_def
      trim_def isWhiteSpace_def toLowerCase_def toLowerChar_def isUpperChar_def endsWith_def
      invalidStoreNames_def setAdd_def newline_def orElse_def Let_def)

lemma cleanDomainsLoop_scenario:
  "cleanDomainsLoop None
     [Some ''*.store1.myshopify.com'', Some ''www.store1.myshopify.com'',
      Some ''admin.myshopify.com''] []
     = [''store1.myshopify.com'', ''admin.myshopify.com'']"
  by (simp add: addCleanDomain_def limitReached_def trim_def isWhiteSpace_def toLowerCase_def
      toLowerChar_def isUpperChar_def setAdd_def newline_def orElse_def Let_def)

lemma fetchDomainsFromCT_scenario:
  "fetchDomainsFromCT ctScenario None = Inr [''store1.myshopify.com'', ''admin.myshopify.com'']"
  "fetchDomainsFromCTWithDate ctScenario None
     = Inr [''store1.myshopify.com'', ''admin.myshopify.com'']"
  "fetchDomainsFromCTWithEndpoint ctScenario None
     = Inr [''store1.myshopify.com'', ''admin.myshopify.com'']"
  by (simp_all add: fetchDomainsFromCT_def fetchDomainsFromCT_try_def
      fetchDomainsFromCTWithDate_def fetchDomainsFromCTWithEndpoint_def
      fetchDomainsFromCTWithDate_try_def ctScenario_def applyLimit_def optLimit_def
      cleanDomainsLoop_scenario del: cleanDomainsLoop.simps)

text \<open>None of the three harvest functions rejects: each \<open>catch\<close> returns an array.\<close>

lemma fetchDomainsFromCT_total:
  "\<exists>ds. fetchDomainsFromCT response options = Inr ds"
  "\<exists>ds. fetchDomainsFromCTWithDate response options = Inr ds"
  "\<exists>ds. fetchDomainsFromCTWithEndpoint response options = Inr ds"
  "\<exists>ds. fetchDomainsFromCTSilent response options = Inr ds"
  by (simp_all add: fetchDomainsFromCT_def fetchDomainsFromCTWithDate_def
      fetchDomainsFromCTWithEndpoint_def fetchDomainsFromCTSilent_def split: sum.splits)

lemma harvest_total: "\<exists>ds. harvest ce opts q k = Inr ds"
  by (simp add: harvest_def Let_def fetchDomainsFromCT_total)

lemma stop_fields:
  "maxTotalDomains stopOptions = None" "stopAfterConsecutiveErrors stopOptions = Some 2"
  "useDateRanges stopOptions = None" "useDifferentEndpoints stopOptions = None"
  "daysBack stopOptions = Some 30" "limitPerPattern stopOptions = None"
  by (simp_all add: stopOptions_def noOptions_def)

lemma cap_fields:
  "maxTotalDomains capOptions = Some 1" "stopAfterConsecutiveErrors capOptions = None"
  "useDateRanges capOptions = None" "useDifferentEndpoints capOptions = None"
  "daysBack capOptions = None" "limitPerPattern capOptions = None"
  by (simp_all add: capOptions_def noOptions_def)

lemma massQueries_stop:
  "massQueries unreachableCt stopOptions =
     [\<lparr>q_pattern = ''%.myshopify.com'', q_startDate = None, q_endDate = None,
       q_endpoint = None, q_description = ''Requ'' @ [CHR 0xEA] @ ''te principale''\<rparr>,
      \<lparr>q_pattern = ''%.myshopify.com'', q_startDate = Some ''20251029'',
       q_endDate = Some ''20251129'', q_endpoint = None,
       q_description = ''Date: 20251029 - 20251129''\<rparr>,
      \<lparr>q_pattern = ''%.myshopify.com'', q_startDate = None, q_endDate = None,
       q_endpoint = Some Identity, q_description = ''Endpoint: Identity''\<rparr>]"
  by (simp add: massQueries_def stop_fields generateDateRangeQueries_def
      generateEndpointQueries_def unreachableCt_def showDate_def Let_def)

lemma harvest_unreachable: "harvest unreachableCt opts q k = Inr []"
  by (simp add: harvest_def unreachableCt_def fetchDomainsFromCTWithEndpoint_def
      fetchDomainsFromCTWithDate_def fetchDomainsFromCTSilent_def fetchDomainsFromCT_def
      fetchDomainsFromCT_try_def fetchDomainsFromCTWithDate_try_def Let_def)

lemma massFetch_run_unreachable:
  "massFetch_run unreachableCt (Some stopOptions) =
     \<lparr>allDomains = [],
      patternsUsed = [''Requ'' @ [CHR 0xEA] @ ''te principale'', ''Date: 20251029 - 20251129'',
                      ''Endpoint: Identity''],
      queryIndex = 3, consecutiveErrors = 0, attempted = [1, 2, 3]\<rparr>"
  by (simp add: massFetch_run_def massQueries_stop harvest_unreachable Let_def limitReached_def
      stop_fields)

lemma harvest_twoNames:
  "harvest twoNamesCt capOptions q k = Inr [''b.myshopify.com'', ''a.myshopify.com'']"
  by (simp add: harvest_def twoNamesCt_def cap_fields numOr_def
      fetchDomainsFromCTWithEndpoint_def
      fetchDomainsFromCTWithDate_def fetchDomainsFromCTSilent_def fetchDomainsFromCT_def
      fetchDomainsFromCT_try_def fetchDomainsFromCTWithDate_try_def Let_def
      addCleanDomain_def applyLimit_def optLimit_def limitReached_def
      trim_def isWhiteSpace_def toLowerCase_def toLowerChar_def isUpperChar_def
      setAdd_def newline_def orElse_def)

lemma massFetch_run_twoNames:
  "allDomains (massFetch_run twoNamesCt (Some capOptions))
     = [''b.myshopify.com'', ''a.myshopify.com'']"
  "attempted (massFetch_run twoNamesCt (Some capOptions)) = [1]"
  by (simp_all add: massFetch_run_def massQueries_def harvest_twoNames Let_def limitReached_def
      cap_fields setAdd_def)

section \<open>Runs in the example environment\<close>

lemma startsWith_append: "startsWith (p @ b) p"
  by (induction p) simp_all

lemma str_includes_startsWith: "startsWith xs p \<Longrightarrow> str_includes xs p"
  by (cases xs) (auto elim: startsWith.elims)

lemma str_includes_infix: "str_includes (a @ p @ b) p"
  by (induction a) (simp_all add: str_includes_startsWith startsWith_append)










lemma example_timeouts:
  "scanNiche_timeout None = 10000" "scanNiche_maxResults None = 20"
  "scanBingBulk_timeout shoesOptions = 15000" "scanBingBulk_timeout shortOptions = 15000"
  by (simp_all add: scanNiche_timeout_def scanNiche_maxResults_def numOr_def
      scanBingBulk_timeout_def shoesOptions_def shortOptions_def)

section \<open>The result of an item, by what happens to its URL\<close>

lemma dnsResolvesD:
  "dnsResolves e u \<Longrightarrow> \<exists>d a. hostnameOf e u = Some d \<and> lookup e d = Inr a"
  by (auto simp add: dnsResolves_def split: option.splits sum.splits)



lemma scanNiche_result_resolved:
  assumes "hostnameOf e (url sr) = Some d" "lookup e d = Inr a"
    "fetchHtml e (url sr) (TimeoutArg tmo) None = Inr html"
  shows "scanNiche_result e tmo sr =
     (if falsyHtml html
      then \<lparr>title = title sr, url = url sr, dnsOk = True, htmlFetched = (html \<noteq> None),
            isShopifyFlag = False, error = Some msgImpossible, confidence = None\<rparr>
      else \<lparr>title = title sr, url = url sr, dnsOk = True, htmlFetched = True,
            isShopifyFlag = isShopifyHtml html, error = None,
            confidence = Some (getShopifyConfidence html)\<rparr>)"
  using assms
  by (simp add: scanNiche_item_def scanNiche_result_def st_defs Let_def
      dnsCheck_def dnsLookup_def falsyHtml_def isShopify_def split: option.splits)





lemma scanNiche_result_empty:
  assumes "returnsContent e (url sr) (TimeoutArg tmo) []"
  shows "dnsOk (scanNiche_result e tmo sr) \<and> htmlFetched (scanNiche_result e tmo sr)
   \<and> \<not> isShopifyFlag (scanNiche_result e tmo sr)
   \<and> error (scanNiche_result e tmo sr) = Some msgImpossible"
proof -
  from assms obtain d a where "hostnameOf e (url sr) = Some d" "lookup e d = Inr a"
    "fetchHtml e (url sr) (TimeoutArg tmo) None = Inr (Some [])"
    by (auto simp add: returnsContent_def dest: dnsResolvesD)
  then show ?thesis by (simp add: scanNiche_result_resolved falsyHtml_def)
qed











section \<open>The classifier and the case mappings of the engine\<close>

lemma firstMatch_utf16_iff:
  "firstMatch_utf16 E ps s = (\<exists>p\<in>set ps. regex_test_i_utf16 E p s)"
  by (induction ps) simp_all

lemma countMatches_utf16_eq:
  "countMatches_utf16 E ps s n = n + length (filter (\<lambda>p. regex_test_i_utf16 E p s) ps)"
  by (induction ps arbitrary: n) simp_all

lemma isShopifyHtml_utf16_Some:
  "isShopifyHtml_utf16 E (Some html)
     = (html \<noteq> [] \<and> tieredRule_utf16 E (String_toLowerCase E html))"
  unfolding isShopifyHtml_utf16_def tieredRule_utf16_def tierCount_utf16_def Let_def
  by (simp add: firstMatch_utf16_iff countMatches_utf16_eq filter_ge1)

lemma regex_test_i_utf16_cong:
  "map (RegExp_Canonicalize E) s = map (RegExp_Canonicalize E) t
   \<Longrightarrow> regex_test_i_utf16 E p s = regex_test_i_utf16 E p t"
  by (simp add: regex_test_i_utf16_def)

lemma tieredRule_utf16_cong:
  "map (RegExp_Canonicalize E) s = map (RegExp_Canonicalize E) t
   \<Longrightarrow> tieredRule_utf16 E s = tieredRule_utf16 E t"
  by (simp add: tieredRule_utf16_def tierCount_utf16_def regex_test_i_utf16_def)

lemma regex_test_i_utf16_empty: "p \<noteq> [] \<Longrightarrow> \<not> regex_test_i_utf16 E p []"
  by (simp add: regex_test_i_utf16_def codeUnits_def)

lemma tieredRule_utf16_empty: "\<not> tieredRule_utf16 E []"
  by (simp add: tieredRule_utf16_def tierCount_utf16_def regex_test_i_utf16_empty
      highConfidencePatterns_def mediumConfidencePatterns_def lowConfidencePatterns_def)

lemma unat_up:
  assumes "unat (c :: code_unit) \<le> 222"
  shows "unat (c + 0x20) = unat c + 32"
proof -
  have "unat c + unat (0x20 :: code_unit) < 2 ^ LENGTH(16)" using assms by simp
  then have "unat (c + 0x20) = unat c + unat (0x20 :: code_unit)"
    by (simp only: unat_add_lem)
  then show ?thesis by simp
qed

lemma upper_lower:
  assumes "(0x41 \<le> c \<and> c \<le> 0x5A) \<or> (0xC0 \<le> c \<and> c \<le> 0xDE \<and> c \<noteq> 0xD7)"
  shows "canonicalUnit (c + 0x20) = (c :: code_unit)"
proof -
  have r: "(65 \<le> unat c \<and> unat c \<le> 90) \<or> (192 \<le> unat c \<and> unat c \<le> 222 \<and> unat c \<noteq> 215)"
    using assms by (auto simp add: word_le_nat_alt dest: arg_cong [where f = "word_of_nat :: nat \<Rightarrow> code_unit"])
  then have "unat c \<le> 222" by arith
  then have u: "unat (c + 0x20) = unat c + 32" by (rule unat_up)
  have a: "(0x61 \<le> c + 0x20 \<and> c + 0x20 \<le> 0x7A)
     \<or> (0xE0 \<le> c + 0x20 \<and> c + 0x20 \<le> 0xFE \<and> c + 0x20 \<noteq> 0xF7)"
  proof -
    have "c + 0x20 \<noteq> 0xF7" if "192 \<le> unat c"
    proof
      assume "c + 0x20 = 0xF7"
      then have "unat (c + 0x20) = unat (0xF7 :: code_unit)" by simp
      then have "unat c = 215" unfolding u by simp
      with r show False by arith
    qed
    with r show ?thesis unfolding word_le_nat_alt u by auto
  qed
  show ?thesis unfolding canonicalUnit_def using a by simp
qed

lemma upper_stays:
  assumes "(0x41 \<le> c \<and> c \<le> 0x5A) \<or> (0xC0 \<le> c \<and> c \<le> 0xDE \<and> c \<noteq> 0xD7)"
  shows "canonicalUnit c = (c :: code_unit)"
proof -
  have r: "(65 \<le> unat c \<and> unat c \<le> 90) \<or> (192 \<le> unat c \<and> unat c \<le> 222)"
    using assms by (auto simp add: word_le_nat_alt)
  have n: "\<not> ((0x61 \<le> c \<and> c \<le> 0x7A) \<or> (0xE0 \<le> c \<and> c \<le> 0xFE \<and> c \<noteq> 0xF7))"
    using r unfolding word_le_nat_alt by auto
  have "unat c \<noteq> unat (0xB5 :: code_unit)" "unat c \<noteq> unat (0xFF :: code_unit)"
    using r by auto
  then have "c \<noteq> 0xB5" "c \<noteq> 0xFF" by auto
  then show ?thesis unfolding canonicalUnit_def using n by simp
qed

lemma latin_unit:
  assumes "c < 0x100"
  shows "canonicalUnit (lowerUnit c) = canonicalUnit c"
proof (cases "(0x41 \<le> c \<and> c \<le> 0x5A) \<or> (0xC0 \<le> c \<and> c \<le> 0xDE \<and> c \<noteq> 0xD7)")
  case True
  then have "lowerUnit c = c + 0x20" by (simp add: lowerUnit_def)
  then show ?thesis using upper_lower [OF True] upper_stays [OF True] by simp
next
  case False
  have "unat c < 256" using assms by (simp add: word_less_nat_alt)
  then have "unat c \<noteq> unat (0x212A :: code_unit)" "unat c \<noteq> unat (0x212B :: code_unit)"
    by auto
  then have "c \<noteq> 0x212A" "c \<noteq> 0x212B" by auto
  then have "lowerUnit c = c" using False unfolding lowerUnit_def by simp
  then show ?thesis by simp
qed

lemma latin_content:
  assumes "\<forall>c\<in>set html. c < 0x100"
  shows "map (RegExp_Canonicalize latinEngine) (String_toLowerCase latinEngine html)
           = map (RegExp_Canonicalize latinEngine) html"
  using assms by (simp add: latinEngine_def latin_unit)

lemma kelvin_lower: "String_toLowerCase latinEngine kelvinPage = codeUnits ''shopify.checkout''"
  by (simp add: latinEngine_def kelvinPage_def codeUnits_def lowerUnit_def)

lemma canonical_ascii:
  "map canonicalUnit (codeUnits ''shopify.checkout'') = codeUnits ''SHOPIFY.CHECKOUT''"
  "map canonicalUnit (codeUnits ''Shopify.checkout'') = codeUnits ''SHOPIFY.CHECKOUT''"
  by (simp_all add: codeUnits_def canonicalUnit_def)

lemma kelvin_positive: "isShopifyHtml_utf16 latinEngine (Some kelvinPage)"
proof -
  have "str_includes (codeUnits ''SHOPIFY.CHECKOUT'') (codeUnits ''SHOPIFY.CHECKOUT'')"
    using str_includes_infix [of "[]" "codeUnits ''SHOPIFY.CHECKOUT''" "[]"] by simp
  then have "regex_test_i_utf16 latinEngine ''Shopify.checkout'' (codeUnits ''shopify.checkout'')"
    unfolding regex_test_i_utf16_def by (simp add: latinEngine_def canonical_ascii)
  then have "tierCount_utf16 latinEngine highConfidencePatterns (codeUnits ''shopify.checkout'') \<ge> 1"
    unfolding tierCount_utf16_def by (auto simp add: filter_ge1 highConfidencePatterns_def)
  then have "tieredRule_utf16 latinEngine (String_toLowerCase latinEngine kelvinPage)"
    unfolding kelvin_lower tieredRule_utf16_def by simp
  moreover have "kelvinPage \<noteq> []" by (simp add: kelvinPage_def)
  ultimately show ?thesis by (simp add: isShopifyHtml_utf16_Some)
qed

lemma kelvin_canonical:
  "map (RegExp_Canonicalize latinEngine) kelvinPage
     = codeUnits ''SHOPIFY.CHEC'' @ [0x212A] @ codeUnits ''OUT''"
  by (simp add: latinEngine_def kelvinPage_def codeUnits_def canonicalUnit_def)

lemma startsWith_set: "startsWith s p \<Longrightarrow> set p \<subseteq> set s"
  by (induction s p rule: startsWith.induct) auto

lemma str_includes_set: "str_includes s p \<Longrightarrow> set p \<subseteq> set s"
proof (induction s)
  case Nil
  then show ?case by simp
next
  case (Cons a s)
  from Cons.prems have "startsWith (a # s) p \<or> str_includes s p" by simp
  then show ?case
  proof
    assume "startsWith (a # s) p"
    then show ?thesis by (rule startsWith_set)
  next
    assume "str_includes s p"
    then have "set p \<subseteq> set s" by (rule Cons.IH)
    then show ?thesis by auto
  qed
qed

lemma no_match_by_unit:
  assumes "RegExp_Canonicalize E (of_char x) \<notin> set (map (RegExp_Canonicalize E) s)" "x \<in> set pat"
  shows "\<not> regex_test_i_utf16 E pat s"
proof
  assume "regex_test_i_utf16 E pat s"
  then have "set (map (RegExp_Canonicalize E) (codeUnits pat)) \<subseteq> set (map (RegExp_Canonicalize E) s)"
    unfolding regex_test_i_utf16_def by (rule str_includes_set)
  moreover have "RegExp_Canonicalize E (of_char x) \<in> set (map (RegExp_Canonicalize E) (codeUnits pat))"
    using assms(2) by (simp add: codeUnits_def)
  ultimately show False using assms(1) by blast
qed

lemma kelvin_units:
  "RegExp_Canonicalize latinEngine (of_char CHR ''m'') \<notin> set (map (RegExp_Canonicalize latinEngine) kelvinPage)"
  "RegExp_Canonicalize latinEngine (of_char CHR ''d'') \<notin> set (map (RegExp_Canonicalize latinEngine) kelvinPage)"
  "RegExp_Canonicalize latinEngine (of_char CHR ''w'') \<notin> set (map (RegExp_Canonicalize latinEngine) kelvinPage)"
  "RegExp_Canonicalize latinEngine (of_char CHR ''g'') \<notin> set (map (RegExp_Canonicalize latinEngine) kelvinPage)"
  "RegExp_Canonicalize latinEngine (of_char CHR ''a'') \<notin> set (map (RegExp_Canonicalize latinEngine) kelvinPage)"
  "RegExp_Canonicalize latinEngine (of_char CHR ''k'') \<notin> set (map (RegExp_Canonicalize latinEngine) kelvinPage)"
  "RegExp_Canonicalize latinEngine (of_char CHR ''-'') \<notin> set (map (RegExp_Canonicalize latinEngine) kelvinPage)"
  "RegExp_Canonicalize latinEngine (of_char CHR ''j'') \<notin> set (map (RegExp_Canonicalize latinEngine) kelvinPage)"
  "RegExp_Canonicalize latinEngine (of_char CHR ''/'') \<notin> set (map (RegExp_Canonicalize latinEngine) kelvinPage)"
  unfolding kelvin_canonical
  by (simp_all add: latinEngine_def codeUnits_def canonicalUnit_def)

lemma kelvin_no_pattern:
  "\<not> regex_test_i_utf16 latinEngine ''cdn.shopify.com'' kelvinPage"
  "\<not> regex_test_i_utf16 latinEngine ''shopifycdn.com'' kelvinPage"
  "\<not> regex_test_i_utf16 latinEngine ''window.shopify'' kelvinPage"
  "\<not> regex_test_i_utf16 latinEngine ''shopify.theme'' kelvinPage"
  "\<not> regex_test_i_utf16 latinEngine ''shopify.settings'' kelvinPage"
  "\<not> regex_test_i_utf16 latinEngine ''shopify.analytics'' kelvinPage"
  "\<not> regex_test_i_utf16 latinEngine ''Shopify.checkout'' kelvinPage"
  "\<not> regex_test_i_utf16 latinEngine ''.myshopify.com'' kelvinPage"
  "\<not> regex_test_i_utf16 latinEngine ''data-shopify'' kelvinPage"
  "\<not> regex_test_i_utf16 latinEngine ''shopify-section'' kelvinPage"
  "\<not> regex_test_i_utf16 latinEngine ''shopify-section-id'' kelvinPage"
  "\<not> regex_test_i_utf16 latinEngine ''shopify.js'' kelvinPage"
  "\<not> regex_test_i_utf16 latinEngine ''shopify.theme.js'' kelvinPage"
  "\<not> regex_test_i_utf16 latinEngine ''/collections/'' kelvinPage"
  "\<not> regex_test_i_utf16 latinEngine ''/products/'' kelvinPage"
  "\<not> regex_test_i_utf16 latinEngine ''/cart'' kelvinPage"
  "\<not> regex_test_i_utf16 latinEngine ''/checkout'' kelvinPage"
  "\<not> regex_test_i_utf16 latinEngine ''shopify.com'' kelvinPage"
  apply (rule no_match_by_unit [OF kelvin_units(1)], simp)
  apply (rule no_match_by_unit [OF kelvin_units(2)], simp)
  apply (rule no_match_by_unit [OF kelvin_units(3)], simp)
  apply (rule no_match_by_unit [OF kelvin_units(1)], simp)
  apply (rule no_match_by_unit [OF kelvin_units(4)], simp)
  apply (rule no_match_by_unit [OF kelvin_units(5)], simp)
  apply (rule no_match_by_unit [OF kelvin_units(6)], simp)
  apply (rule no_match_by_unit [OF kelvin_units(1)], simp)
  apply (rule no_match_by_unit [OF kelvin_units(2)], simp)
  apply (rule no_match_by_unit [OF kelvin_units(7)], simp)
  apply (rule no_match_by_unit [OF kelvin_units(7)], simp)
  apply (rule no_match_by_unit [OF kelvin_units(8)], simp)
  apply (rule no_match_by_unit [OF kelvin_units(1)], simp)
  apply (rule no_match_by_unit [OF kelvin_units(9)], simp)
  apply (rule no_match_by_unit [OF kelvin_units(9)], simp)
  apply (rule no_match_by_unit [OF kelvin_units(9)], simp)
  apply (rule no_match_by_unit [OF kelvin_units(9)], simp)
  apply (rule no_match_by_unit [OF kelvin_units(1)], simp)
  done

lemma kelvin_raw: "\<not> tieredRule_utf16 latinEngine kelvinPage"
  by (simp add: tieredRule_utf16_def tierCount_utf16_def kelvin_no_pattern
      highConfidencePatterns_def mediumConfidencePatterns_def lowConfidencePatterns_def)

lemma capitals_latin: "\<forall>c\<in>set capitalsPage. c < 0x100"
  by (simp add: capitalsPage_def codeUnits_def)

lemma capitals_canonical:
  "map (RegExp_Canonicalize latinEngine) capitalsPage
     = codeUnits ''<SCRIPT SRC=//'' @ codeUnits ''CDN.SHOPIFY.COM'' @ codeUnits ''/S.JS>''"
  "map (RegExp_Canonicalize latinEngine) (codeUnits ''cdn.shopify.com'')
     = codeUnits ''CDN.SHOPIFY.COM''"
  by (simp_all add: latinEngine_def capitalsPage_def codeUnits_def canonicalUnit_def)

lemma capitals_raw: "tieredRule_utf16 latinEngine capitalsPage"
proof -
  have "regex_test_i_utf16 latinEngine ''cdn.shopify.com'' capitalsPage"
    unfolding regex_test_i_utf16_def capitals_canonical by (rule str_includes_infix)
  then have "tierCount_utf16 latinEngine highConfidencePatterns capitalsPage \<ge> 1"
    unfolding tierCount_utf16_def by (auto simp add: filter_ge1 highConfidencePatterns_def)
  then show ?thesis unfolding tieredRule_utf16_def by simp
qed

lemma of_char_unit: "unat (of_char c :: code_unit) = of_char c"
proof -
  have "(of_char c :: nat) < 2 ^ LENGTH(16)"
    by (rule order_less_trans [OF nat_of_char_less_256]) simp
  then have "unat (word_of_nat (of_char c) :: code_unit) = of_char c"
    by (simp only: unat_of_nat mod_less)
  then show ?thesis by (simp only: of_nat_of_char)
qed

lemma of_char_unit_inj: "((of_char a :: code_unit) = of_char b) = (a = b)"
proof
  assume "(of_char a :: code_unit) = of_char b"
  then have "unat (of_char a :: code_unit) = unat (of_char b :: code_unit)" by simp
  then show "a = b" unfolding of_char_unit by simp
qed simp

lemma of_char_unit_latin: "(of_char c :: code_unit) < 0x100"
  unfolding word_less_nat_alt of_char_unit by simp

lemma isLowerChar_nat:
  "isLowerChar c =
     ((97 \<le> (of_char c :: nat) \<and> (of_char c :: nat) \<le> 122)
      \<or> (224 \<le> (of_char c :: nat) \<and> (of_char c :: nat) \<le> 254 \<and> (of_char c :: nat) \<noteq> 247))"
proof -
  have "(c \<noteq> CHR 0xF7) = ((of_char c :: nat) \<noteq> of_char (CHR 0xF7))"
    by (simp only: of_char_eq_iff)
  then have "(c \<noteq> CHR 0xF7) = ((of_char c :: nat) \<noteq> 247)" by simp
  then show ?thesis unfolding isLowerChar_def less_eq_char_def by simp
qed

lemma isLowerChar_unit:
  "((0x61 \<le> (of_char c :: code_unit) \<and> (of_char c :: code_unit) \<le> 0x7A)
      \<or> (0xE0 \<le> (of_char c :: code_unit) \<and> (of_char c :: code_unit) \<le> 0xFE
          \<and> (of_char c :: code_unit) \<noteq> 0xF7)) = isLowerChar c"
proof -
  have "((of_char c :: code_unit) = 0xF7) = (unat (of_char c :: code_unit) = unat (0xF7 :: code_unit))"
    by (simp only: word_unat_eq_iff)
  then have "((of_char c :: code_unit) = 0xF7) = ((of_char c :: nat) = 247)"
    unfolding of_char_unit by simp
  then show ?thesis unfolding isLowerChar_nat word_le_nat_alt of_char_unit by simp
qed

lemma casePairs_shift:
  "list_all (\<lambda>p. (of_char (snd p) :: nat) = of_char (fst p) + 32) casePairs"
  by (simp add: casePairs_def)

lemma lower_count: "card {c. isLowerChar c} = 56"
proof -
  let ?N = "{97..122} \<union> {224..246} \<union> {248..254} :: nat set"
  have "{c. isLowerChar c} = char_of ` ?N"
  proof (rule set_eqI)
    fix c :: char
    have "c \<in> char_of ` ?N" if "isLowerChar c"
    proof -
      have "(of_char c :: nat) \<in> ?N" using that unfolding isLowerChar_nat by auto
      then have "char_of (of_char c :: nat) \<in> char_of ` ?N" by (rule imageI)
      then show ?thesis by simp
    qed
    moreover have "isLowerChar c" if "c \<in> char_of ` ?N"
    proof -
      from that obtain n :: nat where n: "n \<in> ?N" "c = char_of n" by blast
      from n(1) have "n < 256" by auto
      then have "(of_char c :: nat) = n" unfolding n(2) by (simp add: of_char_of)
      with n(1) show ?thesis unfolding isLowerChar_nat by auto
    qed
    ultimately show "(c \<in> {c. isLowerChar c}) = (c \<in> char_of ` ?N)" by auto
  qed
  moreover have "inj_on (char_of :: nat \<Rightarrow> char) ?N"
  proof (rule inj_onI)
    fix x y :: nat
    assume a: "x \<in> ?N" "y \<in> ?N" "(char_of x :: char) = char_of y"
    then have "x < 256" "y < 256" by auto
    moreover from a(3) have "(of_char (char_of x :: char) :: nat) = of_char (char_of y :: char)"
      by simp
    ultimately show "x = y" by (simp add: of_char_of)
  qed
  then have "card (char_of ` ?N :: char set) = card ?N" by (rule card_image)
  moreover have "card ?N = 56"
  proof -
    have d: "{97..122} \<inter> {224..246 :: nat} = {}"
      "({97..122} \<union> {224..246}) \<inter> {248..254 :: nat} = {}"
      by auto
    have "card ?N = card ({97..122} \<union> {224..246 :: nat}) + card {248..254 :: nat}"
      using d(2) by (intro card_Un_disjoint) auto
    also have "card ({97..122} \<union> {224..246 :: nat}) = card {97..122 :: nat} + card {224..246 :: nat}"
      using d(1) by (intro card_Un_disjoint) auto
    finally show ?thesis by simp
  qed
  ultimately show ?thesis by simp
qed

lemma lower_complete: "isLowerChar c \<Longrightarrow> c \<in> set (map snd casePairs)"
proof -
  assume l: "isLowerChar c"
  have s: "set (map snd casePairs) \<subseteq> {c. isLowerChar c}"
    using lower_snd by (auto simp add: list_all_iff)
  have "card (set (map snd casePairs)) = length (map snd casePairs)"
    using distinct_snd by (rule distinct_card)
  also have "\<dots> = 56" by (simp add: casePairs_def)
  finally have "card (set (map snd casePairs)) = card {c. isLowerChar c}"
    by (simp add: lower_count)
  moreover have "finite {c. isLowerChar c}" by simp
  ultimately have "set (map snd casePairs) = {c. isLowerChar c}"
    using s by (simp add: card_subset_eq)
  with l show ?thesis by auto
qed

lemma canonicalize_lower:
  assumes "isLowerChar c"
  shows "(of_char c :: nat) = of_char (canonicalize c) + 32"
proof -
  from lower_complete [OF assms] obtain u where mem: "(u, c) \<in> set casePairs" by auto
  then have "(c, u) \<in> set (map prod.swap casePairs)" by force
  moreover have "distinct (map fst (map prod.swap casePairs))"
    using distinct_snd by (simp add: comp_def)
  ultimately have "map_of (map prod.swap casePairs) c = Some u" by (rule map_of_is_SomeI[rotated])
  then have "canonicalize c = u" using assms by (simp add: canonicalize_def)
  moreover have "(of_char c :: nat) = of_char u + 32"
    using casePairs_shift mem by (auto simp add: list_all_iff)
  ultimately show ?thesis by simp
qed

lemma special_units:
  "((of_char c :: code_unit) = 0xB5) = (c = CHR 0xB5)"
  "((of_char c :: code_unit) = 0xFF) = (c = CHR 0xFF)"
proof -
  have "(of_char (CHR 0xB5) :: code_unit) = 0xB5" "(of_char (CHR 0xFF) :: code_unit) = 0xFF"
    by simp_all
  then show "((of_char c :: code_unit) = 0xB5) = (c = CHR 0xB5)"
    "((of_char c :: code_unit) = 0xFF) = (c = CHR 0xFF)"
    using of_char_unit_inj [of c "CHR 0xB5"] of_char_unit_inj [of c "CHR 0xFF"] by simp_all
qed

lemma special_chars:
  "\<not> isLowerChar (CHR 0xB5)" "\<not> isLowerChar (CHR 0xFF)"
  "\<not> isUpperChar (CHR 0xB5)" "\<not> isUpperChar (CHR 0xFF)"
  by (simp_all add: isLowerChar_def isUpperChar_def)

lemma canonicalUnit_of_char:
  "canonicalUnit (of_char c) =
     (if c = CHR 0xB5 then 0x39C else if c = CHR 0xFF then 0x178
      else of_char (canonicalize c))"
proof (cases "isLowerChar c")
  case True
  have n: "c \<noteq> CHR 0xB5" "c \<noteq> CHR 0xFF" using True special_chars by auto
  have "(of_char c :: code_unit) = word_of_nat (of_char c)" by (simp only: of_nat_of_char)
  also have "\<dots> = word_of_nat (of_char (canonicalize c) + 32)"
    by (simp only: canonicalize_lower [OF True])
  also have "\<dots> = of_char (canonicalize c) + 0x20" by (simp add: of_nat_of_char)
  finally have "(of_char c :: code_unit) - 0x20 = of_char (canonicalize c)" by simp
  moreover have "canonicalUnit (of_char c) = of_char c - 0x20"
    unfolding canonicalUnit_def using True by (simp only: isLowerChar_unit if_True)
  ultimately show ?thesis using n by simp
next
  case False
  then have "canonicalize c = c" by (simp add: canonicalize_def)
  moreover have "canonicalUnit (of_char c) =
     (if (of_char c :: code_unit) = 0xB5 then 0x39C
      else if (of_char c :: code_unit) = 0xFF then 0x178 else of_char c)"
    unfolding canonicalUnit_def using False by (simp only: isLowerChar_unit if_False)
  ultimately show ?thesis by (simp only: special_units)
qed

lemma canonicalize_range:
  "canonicalize c = c \<or> isUpperChar (canonicalize c)"
proof (cases "isLowerChar c")
  case True
  from lower_complete [OF True] obtain u where mem: "(u, c) \<in> set casePairs" by auto
  then have "(c, u) \<in> set (map prod.swap casePairs)" by force
  moreover have "distinct (map fst (map prod.swap casePairs))"
    using distinct_snd by (simp add: comp_def)
  ultimately have "map_of (map prod.swap casePairs) c = Some u" by (rule map_of_is_SomeI[rotated])
  then have "canonicalize c = u" using True by (simp add: canonicalize_def)
  moreover have "u \<in> set (map fst casePairs)" using mem by force
  then have "isUpperChar u" using upper_fst by (auto simp add: list_all_iff)
  ultimately show ?thesis by simp
next
  case False
  then show ?thesis by (simp add: canonicalize_def)
qed

lemma canonical_agree:
  "(canonicalUnit (of_char a) = canonicalUnit (of_char b)) = (canonicalize a = canonicalize b)"
proof -
  have sp: "canonicalize (CHR 0xB5) = CHR 0xB5" "canonicalize (CHR 0xFF) = CHR 0xFF"
    using special_chars by (simp_all add: canonicalize_def)
  have other: "canonicalize c \<noteq> CHR 0xB5 \<and> canonicalize c \<noteq> CHR 0xFF
      \<and> (of_char (canonicalize c) :: code_unit) \<noteq> 0x39C
      \<and> (of_char (canonicalize c) :: code_unit) \<noteq> 0x178"
    if "c \<noteq> CHR 0xB5" "c \<noteq> CHR 0xFF" for c
  proof -
    have "canonicalize c \<noteq> CHR 0xB5" "canonicalize c \<noteq> CHR 0xFF"
      using canonicalize_range [of c] that special_chars by auto
    moreover have "(of_char (canonicalize c) :: code_unit) < 0x100" by (rule of_char_unit_latin)
    then have "(of_char (canonicalize c) :: code_unit) \<noteq> 0x39C"
      "(of_char (canonicalize c) :: code_unit) \<noteq> 0x178"
      by auto
    ultimately show ?thesis by simp
  qed
  have ne: "CHR 0xB5 \<noteq> CHR 0xFF" by simp
  consider "a = CHR 0xB5 \<or> a = CHR 0xFF" "b = CHR 0xB5 \<or> b = CHR 0xFF"
    | "a = CHR 0xB5 \<or> a = CHR 0xFF" "b \<noteq> CHR 0xB5" "b \<noteq> CHR 0xFF"
    | "a \<noteq> CHR 0xB5" "a \<noteq> CHR 0xFF" "b = CHR 0xB5 \<or> b = CHR 0xFF"
    | "a \<noteq> CHR 0xB5" "a \<noteq> CHR 0xFF" "b \<noteq> CHR 0xB5" "b \<noteq> CHR 0xFF"
    by blast
  then show ?thesis
  proof cases
    case 1
    then show ?thesis using sp ne by (auto simp add: canonicalUnit_of_char)
  next
    case 2
    then show ?thesis using sp other [OF 2(2,3)] by (auto simp add: canonicalUnit_of_char)
  next
    case 3
    then show ?thesis using sp other [OF 3(1,2)] by (auto simp add: canonicalUnit_of_char)
  next
    case 4
    then show ?thesis by (simp add: canonicalUnit_of_char of_char_unit_inj)
  qed
qed

lemma isShopifyHtml_utf16_raw:
  assumes "map (RegExp_Canonicalize E) (String_toLowerCase E s) = map (RegExp_Canonicalize E) s"
  shows "isShopifyHtml_utf16 E (Some s) = tieredRule_utf16 E s"
proof (cases "s = []")
  case True
  then show ?thesis by (simp add: isShopifyHtml_utf16_Some tieredRule_utf16_empty)
next
  case False
  then show ?thesis
    using tieredRule_utf16_cong [OF assms] by (simp add: isShopifyHtml_utf16_Some)
qed

lemma startsWith_map_agree:
  assumes "\<And>a b. (f a = f b) = (g a = g b)"
  shows "startsWith (map f xs) (map f ys) = startsWith (map g xs) (map g ys)"
proof (induction xs ys rule: startsWith.induct)
  case (3 c cs p ps)
  then show ?case using assms [of c p] by simp
qed simp_all

lemma str_includes_map_agree:
  assumes "\<And>a b. (f a = f b) = (g a = g b)"
  shows "str_includes (map f xs) (map f ys) = str_includes (map g xs) (map g ys)"
proof (induction xs)
  case Nil
  then show ?case by simp
next
  case (Cons x xs)
  have "startsWith (map f (x # xs)) (map f ys) = startsWith (map g (x # xs)) (map g ys)"
    using assms by (rule startsWith_map_agree)
  then show ?case using Cons.IH by simp
qed

text \<open>
  On content of code units below \<open>0x100\<close> the two models of the classifier are one: the
  pipelines classify as the classifier of this section does.
\<close>

lemma regex_test_i_latin:
  "regex_test_i_utf16 latinEngine p (codeUnits h) = regex_test_i p h"
proof -
  have "str_includes (map (canonicalUnit \<circ> of_char) h) (map (canonicalUnit \<circ> of_char) p)
          = str_includes (map canonicalize h) (map canonicalize p)"
    by (rule str_includes_map_agree) (simp add: canonical_agree)
  then show ?thesis
    by (simp add: regex_test_i_utf16_def regex_test_i_def latinEngine_def codeUnits_def)
qed

lemma tieredRule_latin: "tieredRule_utf16 latinEngine (codeUnits h) = tieredRule h"
  by (simp add: tieredRule_utf16_def tieredRule_def tierCount_utf16_def tierCount_def
      regex_test_i_latin)

lemma isShopifyHtml_latin:
  "isShopifyHtml_utf16 latinEngine (map_option codeUnits html) = isShopifyHtml html"
proof (cases html)
  case None
  then show ?thesis by (simp add: isShopifyHtml_utf16_def isShopifyHtml_def)
next
  case (Some h)
  have "\<forall>c\<in>set (codeUnits h). c < 0x100"
    by (auto simp add: codeUnits_def of_char_unit_latin)
  then have "isShopifyHtml_utf16 latinEngine (Some (codeUnits h))
               = tieredRule_utf16 latinEngine (codeUnits h)"
    by (intro isShopifyHtml_utf16_raw latin_content)
  then show ?thesis using Some by (simp add: tieredRule_latin isShopifyHtml_Some)
qed

section \<open>The claims\<close>

text \<open>
  Claim C1. For every page content and every engine, \<open>isShopifyHtml\<close> returns true exactly
  when the content is not empty and the tiered rule holds of the lower-cased content, the
  string the source tests its patterns on: one Tier-A pattern matches, or two Tier-B
  patterns, or one Tier-B and two Tier-C patterns, or \<open>.myshopify.com\<close> is present with
  three Tier-B and Tier-C matches in all. For the empty string and for an absent argument
  it returns false. Where lower-casing leaves the code units of the content unchanged up
  to the canonicalisation of the regular expressions, this is the tiered rule on the
  content itself; so it is for every content of code units below \<open>0x100\<close>.
\<close>

theorem isShopifyHtml_tiered_lower:
  "isShopifyHtml_utf16 E content =
     (case content of
        None \<Rightarrow> False
      | Some h \<Rightarrow> h \<noteq> [] \<and> tieredRule_utf16 E (String_toLowerCase E h))
   \<and> (map (RegExp_Canonicalize E) (String_toLowerCase E html)
         = map (RegExp_Canonicalize E) html
       \<longrightarrow> isShopifyHtml_utf16 E (Some html) = tieredRule_utf16 E html)
   \<and> ((\<forall>c\<in>set latin. c < 0x100)
       \<longrightarrow> isShopifyHtml_utf16 latinEngine (Some latin) = tieredRule_utf16 latinEngine latin)"
proof -
  have a: "isShopifyHtml_utf16 E content =
     (case content of
        None \<Rightarrow> False
      | Some h \<Rightarrow> h \<noteq> [] \<and> tieredRule_utf16 E (String_toLowerCase E h))"
  proof (cases content)
    case None
    then show ?thesis by (simp add: isShopifyHtml_utf16_def)
  next
    case (Some h)
    then show ?thesis by (simp add: isShopifyHtml_utf16_Some)
  qed
  have b: "map (RegExp_Canonicalize E) (String_toLowerCase E html)
         = map (RegExp_Canonicalize E) html
       \<longrightarrow> isShopifyHtml_utf16 E (Some html) = tieredRule_utf16 E html"
    using isShopifyHtml_utf16_raw by blast
  have c: "(\<forall>c\<in>set latin. c < 0x100)
       \<longrightarrow> isShopifyHtml_utf16 latinEngine (Some latin) = tieredRule_utf16 latinEngine latin"
    using isShopifyHtml_utf16_raw [OF latin_content] by blast
  from a b c show ?thesis by (intro conjI)
qed

theorem isShopifyHtml_tiered_lower_witness:
  "map (RegExp_Canonicalize latinEngine) (String_toLowerCase latinEngine capitalsPage)
     = map (RegExp_Canonicalize latinEngine) capitalsPage
   \<and> filter (\<lambda>c. 0x100 \<le> c) capitalsPage = []
   \<and> tieredRule_utf16 latinEngine capitalsPage
   \<and> isShopifyHtml_utf16 latinEngine (Some capitalsPage)
   \<and> isShopifyHtml_utf16 latinEngine None = False"
proof -
  note inst = isShopifyHtml_tiered_lower [of latinEngine None capitalsPage capitalsPage]
  have h: "map (RegExp_Canonicalize latinEngine) (String_toLowerCase latinEngine capitalsPage)
     = map (RegExp_Canonicalize latinEngine) capitalsPage"
    using capitals_latin by (rule latin_content)
  have f: "filter (\<lambda>c. 0x100 \<le> c) capitalsPage = []"
    using capitals_latin by (auto simp add: filter_empty_conv)
  have p: "isShopifyHtml_utf16 latinEngine (Some capitalsPage)"
    using inst h capitals_raw by blast
  have n: "isShopifyHtml_utf16 latinEngine None = False"
    using inst by simp
  from h f capitals_raw p n show ?thesis by (intro conjI)
qed

theorem kelvin_sign_counterexample:
  "String_toLowerCase latinEngine kelvinPage = codeUnits ''shopify.checkout''
   \<and> isShopifyHtml_utf16 latinEngine (Some kelvinPage)
   \<and> \<not> tieredRule_utf16 latinEngine kelvinPage"
  using kelvin_lower kelvin_positive kelvin_raw by (intro conjI)

text \<open>
  Claim C10. The content \<open>shopify.analytics\<close> is classified positive and has confidence
  exactly zero: the pattern is in the Tier-A list and not among the weighted patterns.
\<close>

theorem positive_with_zero_confidence:
  "isShopifyHtml (Some ''shopify.analytics'')
   \<and> getShopifyConfidence (Some ''shopify.analytics'') = 0
   \<and> ''shopify.analytics'' \<in> set highConfidencePatterns
   \<and> ''shopify.analytics'' \<notin> fst ` set weightedPatterns"
proof -
  have t: "tierCount highConfidencePatterns ''shopify.analytics'' = 1"
    by (simp add: tierCount_def highConfidencePatterns_def regex_test_i_def canon_eval)
  have a: "isShopifyHtml (Some ''shopify.analytics'')"
    using t by (simp add: isShopifyHtml_Some tieredRule_def)
  have w: "addWeights weightedPatterns ''shopify.analytics'' 0 = 0"
    by (simp add: weightedPatterns_def regex_test_i_def canon_eval)
  have b: "getShopifyConfidence (Some ''shopify.analytics'') = 0"
    by (simp add: getShopifyConfidence_Some w)
  have c: "''shopify.analytics'' \<in> set highConfidencePatterns"
    by (simp add: highConfidencePatterns_def)
  have d: "''shopify.analytics'' \<notin> fst ` set weightedPatterns"
    by (simp add: weightedPatterns_def)
  show ?thesis using a b c d by blast
qed

text \<open>
  Claim C8. \<open>fetchHtml\<close> never raises. It returns the body text when the response has a
  success status and its body can be read (the body of a response to a HEAD request being
  empty), and \<open>null\<close> when \<open>fetch\<close> rejects (timeout, network failure), when the status
  is not a success, and when reading the body fails: the same value for every cause.
\<close>

theorem fetchHtml_never_raises:
  "(\<exists>r. fetchHtml e u a opt = Inr r)
   \<and> (fetchOutcome e u a opt = FetchResponse True (Inr body)
        \<and> (methodOf (resolveOptions a opt) = HEAD \<longrightarrow> body = [])
       \<longrightarrow> fetchHtml e u a opt = Inr (Some body))
   \<and> (fetchOutcome e u a opt = FetchRejected err \<longrightarrow> fetchHtml e u a opt = Inr None)
   \<and> (fetchOutcome e u a opt = FetchResponse False t \<longrightarrow> fetchHtml e u a opt = Inr None)
   \<and> (fetchOutcome e u a opt = FetchResponse True (Inl err)
        \<and> methodOf (resolveOptions a opt) \<noteq> HEAD
       \<longrightarrow> fetchHtml e u a opt = Inr None)"
  by (simp add: fetchHtml_cases split: fetch_outcome.splits sum.splits)

theorem fetchHtml_never_raises_witness:
  "fetchOutcome exampleEnv ''https://shop.example'' NoArg None = FetchResponse True (Inr pageTierA)
   \<and> methodOf (resolveOptions NoArg None) \<noteq> HEAD
   \<and> fetchHtml exampleEnv ''https://shop.example'' NoArg None = Inr (Some pageTierA)
   \<and> fetchOutcome exampleEnv ''https://gone.example'' NoArg None
       = FetchResponse False (Inr ''Not Found'')
   \<and> fetchHtml exampleEnv ''https://gone.example'' NoArg None = Inr None
   \<and> fetchOutcome exampleEnv ''https://slow.example'' NoArg None
       = FetchRejected (JsError ''AbortError'' ''This operation was aborted'')
   \<and> fetchHtml exampleEnv ''https://slow.example'' NoArg None = Inr None"
proof -
  have m: "methodOf (resolveOptions NoArg None) \<noteq> HEAD"
    by (simp add: methodOf_def resolveOptions_def emptyOptions_def)
  note o = example_outcomes [where a = NoArg]
  have a: "fetchHtml exampleEnv ''https://shop.example'' NoArg None = Inr (Some pageTierA)"
    using fetchHtml_never_raises
      [of exampleEnv "''https://shop.example''" NoArg None pageTierA] o(1) m by blast
  have b: "fetchHtml exampleEnv ''https://gone.example'' NoArg None = Inr None"
    using fetchHtml_never_raises
      [of exampleEnv "''https://gone.example''" NoArg None _ _ "Inr ''Not Found''"] o(4)
    by blast
  have c: "fetchHtml exampleEnv ''https://slow.example'' NoArg None = Inr None"
    using fetchHtml_never_raises
      [of exampleEnv "''https://slow.example''" NoArg None _
          "JsError ''AbortError'' ''This operation was aborted''"] o(5)
    by blast
  show ?thesis using m o a b c by simp
qed









text \<open>
  Claim C3, amended. For the certificate-log answer with the name entries
  \<open>*.store1.myshopify.com\<close>, \<open>www.store1.myshopify.com\<close> and \<open>admin.myshopify.com\<close>,
  \<open>getShopifyDomainsFromCT\<close> yields the one candidate \<open>store1.myshopify.com\<close>;
  \<open>fetchDomainsFromCT\<close> and its two copies, which have no denylist, yield
  \<open>store1.myshopify.com\<close> and \<open>admin.myshopify.com\<close>. Both fold the wildcard and the
  \<open>www\<close> variant to one identity.
\<close>

theorem ct_scenario:
  "getShopifyDomainsFromCT ctScenario None
     = Inr [\<lparr>title = ''store1.myshopify.com'', url = ''https://store1.myshopify.com''\<rparr>]
   \<and> fetchDomainsFromCT ctScenario None
       = Inr [''store1.myshopify.com'', ''admin.myshopify.com'']
   \<and> fetchDomainsFromCTWithDate ctScenario None
       = Inr [''store1.myshopify.com'', ''admin.myshopify.com'']
   \<and> fetchDomainsFromCTWithEndpoint ctScenario None
       = Inr [''store1.myshopify.com'', ''admin.myshopify.com'']"
  using getShopifyDomainsFromCT_scenario fetchDomainsFromCT_scenario by (intro conjI)

theorem ctScanner_keeps_admin_counterexample:
  "ctScenario =
     CtResponse True ''200 OK''
       (Inr [Some ''*.store1.myshopify.com'', Some ''www.store1.myshopify.com'',
             Some ''admin.myshopify.com''])
   \<and> fetchDomainsFromCT ctScenario None \<noteq> Inr [''store1.myshopify.com'']
   \<and> fetchDomainsFromCT ctScenario None
       = Inr [''store1.myshopify.com'', ''admin.myshopify.com'']"
proof -
  have a: "fetchDomainsFromCT ctScenario None
       = Inr [''store1.myshopify.com'', ''admin.myshopify.com'']"
    by (rule fetchDomainsFromCT_scenario)
  have b: "fetchDomainsFromCT ctScenario None \<noteq> Inr [''store1.myshopify.com'']"
    unfolding a by simp
  from ctScenario_def b a show ?thesis by (intro conjI)
qed

text \<open>
  Claim C4, at the failing input. With \<open>stopAfterConsecutiveErrors = 2\<close> and three queries
  (one month of date ranges), crt.sh being unreachable for every request: the harvests of
  queries 1 and 2 return the empty array instead of throwing, the error counter stays at
  zero, and query 3 is attempted. The function returns the empty collection.
\<close>

theorem circuit_breaker_not_reached:
  "stopAfterConsecutiveErrors stopOptions = Some 2
   \<and> length (massQueries unreachableCt stopOptions) = 3
   \<and> crtsh unreachableCt 1 = CtRejected (JsError ''TypeError'' ''fetch failed'')
   \<and> crtsh unreachableCt 2 = CtRejected (JsError ''TypeError'' ''fetch failed'')
   \<and> attempted (massFetch_run unreachableCt (Some stopOptions)) = [1, 2, 3]
   \<and> consecutiveErrors (massFetch_run unreachableCt (Some stopOptions)) = 0
   \<and> domains (massFetchDomainsFromCT unreachableCt (Some stopOptions)) = []"
proof -
  have a: "stopAfterConsecutiveErrors stopOptions = Some 2" by (rule stop_fields)
  have b: "length (massQueries unreachableCt stopOptions) = 3"
    by (simp add: massQueries_stop)
  have c: "crtsh unreachableCt 1 = CtRejected (JsError ''TypeError'' ''fetch failed'')"
    "crtsh unreachableCt 2 = CtRejected (JsError ''TypeError'' ''fetch failed'')"
    by (simp_all add: unreachableCt_def)
  have d: "attempted (massFetch_run unreachableCt (Some stopOptions)) = [1, 2, 3]"
    "consecutiveErrors (massFetch_run unreachableCt (Some stopOptions)) = 0"
    by (simp_all add: massFetch_run_unreachable)
  have e: "domains (massFetchDomainsFromCT unreachableCt (Some stopOptions)) = []"
    by (simp add: massFetchDomainsFromCT_def massFetch_run_unreachable Let_def)
  from a b c d e show ?thesis by (intro conjI)
qed

text \<open>
  Claim C9, at the failing input. With \<open>maxTotalDomains = 1\<close> and a first answer that
  holds two names, the scan stops after the first query and returns both domains: the
  list is longer than the cap.
\<close>

theorem cap_exceeded:
  "maxTotalDomains capOptions = Some 1
   \<and> attempted (massFetch_run twoNamesCt (Some capOptions)) = [1]
   \<and> domains (massFetchDomainsFromCT twoNamesCt (Some capOptions))
       = [''a.myshopify.com'', ''b.myshopify.com'']
   \<and> totalDomains (massFetchDomainsFromCT twoNamesCt (Some capOptions)) = 2"
proof -
  have a: "maxTotalDomains capOptions = Some 1" by (rule cap_fields)
  have b: "attempted (massFetch_run twoNamesCt (Some capOptions)) = [1]"
    by (rule massFetch_run_twoNames)
  have c: "domains (massFetchDomainsFromCT twoNamesCt (Some capOptions))
       = [''a.myshopify.com'', ''b.myshopify.com'']"
    by (simp add: massFetchDomainsFromCT_def massFetch_run_twoNames Let_def)
  have d: "totalDomains (massFetchDomainsFromCT twoNamesCt (Some capOptions)) = 2"
    by (simp add: massFetchDomainsFromCT_def massFetch_run_twoNames Let_def)
  from a b c d show ?thesis by (intro conjI)
qed

text \<open>
  C7. Aggregation. In \<open>scanBingBulk\<close> and in \<open>scanMassive\<close> the collected URLs hold every
  URL once; the title kept for a URL is the title of its first occurrence in the results
  of the harvest calls, taken in call order; the collected URLs are exactly the URLs of
  the results, so that the membership does not depend on the order of the calls
  (for \<open>scanBingBulk\<close>: two lists of queries with the same elements collect the same
  URLs; for \<open>scanMassive\<close>: the union of the two sources); and merging the same results
  a second time changes nothing in the membership.
\<close>

theorem aggregation_first_seen:
  "distinct (allUrls (scanBingBulk_collect e options))
   \<and> urlToTitle (scanBingBulk_collect e options) = firstTitle (bulkHits e options)
   \<and> set (allUrls (scanBingBulk_collect e options)) = url ` set (bulkHits e options)
   \<and> (set (bulk_queries options') = set (bulk_queries options)
        \<and> bulk_maxResultsPerQuery options' = bulk_maxResultsPerQuery options
      \<longrightarrow> set (allUrls (scanBingBulk_collect e options'))
            = set (allUrls (scanBingBulk_collect e options)))
   \<and> scanBingBulk_collect e
        (options\<lparr>bulk_queries := bulk_queries options @ bulk_queries options\<rparr>)
       = scanBingBulk_collect e options
   \<and> distinct (allUrls (scanMassive_collect e massive))
   \<and> urlToTitle (scanMassive_collect e massive)
       = firstTitle (ctHits e massive @ githubHits e massive)
   \<and> set (allUrls (scanMassive_collect e massive))
       = url ` (set (githubHits e massive) \<union> set (ctHits e massive))
   \<and> set (allUrls (foldl addGithubResult
                     (foldl addCtResult (scanMassive_collect e massive) (ctHits e massive))
                     (githubHits e massive)))
       = set (allUrls (scanMassive_collect e massive))"
proof -
  have o: "set (bulk_queries options') = set (bulk_queries options)
        \<and> bulk_maxResultsPerQuery options' = bulk_maxResultsPerQuery options
      \<longrightarrow> set (allUrls (scanBingBulk_collect e options'))
            = set (allUrls (scanBingBulk_collect e options))"
    using scanBingBulk_collect_order by blast
  have u: "set (allUrls (scanMassive_collect e massive))
       = url ` (set (githubHits e massive) \<union> set (ctHits e massive))"
    unfolding scanMassive_collect_props(2) by (simp add: Un_commute)
  from scanBingBulk_collect_props(1) scanBingBulk_collect_props(3)
    scanBingBulk_collect_props(2) o scanBingBulk_collect_twice
    scanMassive_collect_props(1) scanMassive_collect_props(3) u scanMassive_merge_again
  show ?thesis by (intro conjI)
qed

theorem aggregation_first_seen_witness:
  "set (bulk_queries hatsShoesOptions) = set (bulk_queries shoesHatsOptions)
   \<and> bulk_maxResultsPerQuery hatsShoesOptions = bulk_maxResultsPerQuery shoesHatsOptions
   \<and> set (allUrls (scanBingBulk_collect exampleEnv hatsShoesOptions))
       = set (allUrls (scanBingBulk_collect exampleEnv shoesHatsOptions))
   \<and> allUrls (scanBingBulk_collect exampleEnv shoesHatsOptions)
       = [''https://down.example'', ''https://gone.example'', ''https://shop.example'',
          ''https://ok.example'']
   \<and> allUrls (scanBingBulk_collect exampleEnv hatsShoesOptions)
       = [''https://shop.example'', ''https://ok.example'', ''https://down.example'',
          ''https://gone.example'']
   \<and> urlToTitle (scanBingBulk_collect exampleEnv shoesHatsOptions) ''https://shop.example''
       = Some ''Shop''
   \<and> urlToTitle (scanBingBulk_collect exampleEnv hatsShoesOptions) ''https://shop.example''
       = Some ''Shop again''"
proof -
  have q: "set (bulk_queries hatsShoesOptions) = set (bulk_queries shoesHatsOptions)"
    "bulk_maxResultsPerQuery hatsShoesOptions = bulk_maxResultsPerQuery shoesHatsOptions"
    by (auto simp add: hatsShoesOptions_def shoesHatsOptions_def)
  note inst = aggregation_first_seen [of exampleEnv shoesHatsOptions hatsShoesOptions None]
  have s: "set (allUrls (scanBingBulk_collect exampleEnv hatsShoesOptions))
       = set (allUrls (scanBingBulk_collect exampleEnv shoesHatsOptions))"
    using inst q by blast
  from q s example_merge show ?thesis by (intro conjI)
qed

end
